theory Spec2Isabelle
  imports Complex_Main
begin

section \<open>Values\<close>

text \<open>
  The pixel coordinates returned by the coordinate projector and the samples of the image
  are IEEE doubles. A double is a NaN, an infinity or a finite value; every finite double
  is a rational number, so the finite values are modelled by \<open>rat\<close>. The extraction loop
  performs no floating-point arithmetic: it rounds each coordinate once and then copies
  samples, so no rounding error has to be modelled.
\<close>

datatype float64 = Finite rat | NaN | PosInf | NegInf

datatype error = ValueError | OverflowError | IndexError

fun is_finite :: "float64 \<Rightarrow> bool" where
  "is_finite (Finite q) = True"
| "is_finite NaN = False"
| "is_finite PosInf = False"
| "is_finite NegInf = False"

text \<open>
  \<open>round(x)\<close> on a float, with no digit count, returns the nearest integer and resolves
  an exact tie towards the even neighbour (the rule of the language's built-in and of the
  array library's scalar rounding alike).
\<close>

definition py_round :: "rat \<Rightarrow> int" where
  "py_round q =
     (let f = \<lfloor>q\<rfloor>; d = q - of_int f
      in if d < 1 / 2 then f
         else if 1 / 2 < d then f + 1
         else if even f then f else f + 1)"

text \<open>
  \<open>int(round(x))\<close> of line 44: a NaN raises ValueError, an infinity raises
  OverflowError.
\<close>

fun int_round :: "float64 \<Rightarrow> error + int" where
  "int_round (Finite q) = Inr (py_round q)"
| "int_round NaN = Inl ValueError"
| "int_round PosInf = Inl OverflowError"
| "int_round NegInf = Inl OverflowError"

section \<open>Two-dimensional arrays and slices\<close>

text \<open>
  A two-dimensional array carries its shape and its rows. The shape is kept apart from
  the rows because an array with no rows still has a column count.
\<close>

record ndarray =
  shape0 :: nat
  shape1 :: nat
  rows :: "float64 list list"

definition wf_array :: "ndarray \<Rightarrow> bool" where
  "wf_array a \<longleftrightarrow>
     length (rows a) = shape0 a \<and> list_all (\<lambda>r. length r = shape1 a) (rows a)"

definition item :: "ndarray \<Rightarrow> nat \<Rightarrow> nat \<Rightarrow> float64" where
  "item a i j = rows a ! i ! j"

text \<open>\<open>np.full((n, n), v)\<close>: a negative dimension raises ValueError.\<close>

definition np_full :: "int \<Rightarrow> float64 \<Rightarrow> error + ndarray" where
  "np_full n v =
     (if n < 0 then Inl ValueError
      else Inr \<lparr>shape0 = nat n, shape1 = nat n,
                rows = replicate (nat n) (replicate (nat n) v)\<rparr>)"

text \<open>
  A bound of a slice \<open>a[lo:hi]\<close> over an axis of length \<open>n\<close>: a negative bound counts
  from the end, and every bound is clipped to \<open>0..n\<close>.
\<close>

definition slice_index :: "nat \<Rightarrow> int \<Rightarrow> nat" where
  "slice_index n i = (if i < 0 then nat (max 0 (i + int n)) else min (nat i) n)"

text \<open>
  A basic slice of an array is a view: a rectangle of the array it was taken from,
  given by its first row and column and its extent. A slice whose upper bound does not
  exceed its lower bound is empty.
\<close>

record region =
  row0 :: nat
  nrows :: nat
  col0 :: nat
  ncols :: nat

definition slice2 :: "ndarray \<Rightarrow> int \<times> int \<Rightarrow> int \<times> int \<Rightarrow> region" where
  "slice2 a ys xs =
     (let r = slice_index (shape0 a) (fst ys); r' = slice_index (shape0 a) (snd ys);
          c = slice_index (shape1 a) (fst xs); c' = slice_index (shape1 a) (snd xs)
      in \<lparr>row0 = r, nrows = r' - r, col0 = c, ncols = c' - c\<rparr>)"

text \<open>\<open>view[:m, :n]\<close>, for non-negative \<open>m\<close> and \<open>n\<close>.\<close>

definition head_region :: "region \<Rightarrow> nat \<Rightarrow> nat \<Rightarrow> region" where
  "head_region g m n = g\<lparr>nrows := min m (nrows g), ncols := min n (ncols g)\<rparr>"

text \<open>The positions of the underlying array that a view covers.\<close>

definition region_indices :: "region \<Rightarrow> (nat \<times> nat) list" where
  "region_indices g =
     List.product [row0 g ..< row0 g + nrows g] [col0 g ..< col0 g + ncols g]"

text \<open>The values seen through a view.\<close>

definition region_get :: "ndarray \<Rightarrow> region \<Rightarrow> ndarray" where
  "region_get a g =
     \<lparr>shape0 = nrows g, shape1 = ncols g,
      rows = map (\<lambda>i. map (\<lambda>j. item a (row0 g + i) (col0 g + j)) [0..<ncols g])
                 [0..<nrows g]\<rparr>"

text \<open>
  Assignment through a view, \<open>view[...] = v\<close>: the value is broadcast to the shape of
  the view (an axis of \<open>v\<close> must have the view's length or length one), otherwise the
  assignment raises ValueError. The array underneath the view is the one that changes.
\<close>

definition region_set :: "ndarray \<Rightarrow> region \<Rightarrow> ndarray \<Rightarrow> error + ndarray" where
  "region_set a g v =
     (if (shape0 v = nrows g \<or> shape0 v = 1) \<and> (shape1 v = ncols g \<or> shape1 v = 1)
      then Inr (a\<lparr>rows :=
             map (\<lambda>i. map (\<lambda>j.
                    if row0 g \<le> i \<and> i < row0 g + nrows g \<and>
                       col0 g \<le> j \<and> j < col0 g + ncols g
                    then item v (if shape0 v = 1 then 0 else i - row0 g)
                                (if shape1 v = 1 then 0 else j - col0 g)
                    else item a i j) [0..<shape1 a]) [0..<shape0 a]\<rparr>)
      else Inl ValueError)"

section \<open>The extraction loop\<close>

text \<open>
  The index arithmetic of lines 50 to 59 for one rounded centre: the slice bounds in the
  image and in the cutout.
\<close>

record bounds =
  x_start :: int
  x_end :: int
  y_start :: int
  y_end :: int
  cutout_x_start :: int
  cutout_x_end :: int
  cutout_y_start :: int
  cutout_y_end :: int

definition slice_bounds :: "ndarray \<Rightarrow> int \<Rightarrow> int \<Rightarrow> int \<Rightarrow> bounds" where
  "slice_bounds array half_size x y =
     (let xs = max 0 (x - half_size);
          xe = min (int (shape1 array)) (x + half_size + 1);
          ys = max 0 (y - half_size);
          ye = min (int (shape0 array)) (y + half_size + 1);
          cxs = max 0 (half_size - x);
          cxe = cxs + (xe - xs);
          cys = max 0 (half_size - y);
          cye = cys + (ye - ys)
      in \<lparr>x_start = xs, x_end = xe, y_start = ys, y_end = ye,
          cutout_x_start = cxs, cutout_x_end = cxe,
          cutout_y_start = cys, cutout_y_end = cye\<rparr>)"

definition overlaps :: "bounds \<Rightarrow> bool" where
  "overlaps b \<longleftrightarrow> x_end b > x_start b \<and> y_end b > y_start b"

text \<open>The two views of lines 64 and 65.\<close>

definition cutout_region :: "ndarray \<Rightarrow> bounds \<Rightarrow> region" where
  "cutout_region cutout b =
     slice2 cutout (cutout_y_start b, cutout_y_end b) (cutout_x_start b, cutout_x_end b)"

definition array_region :: "ndarray \<Rightarrow> bounds \<Rightarrow> region" where
  "array_region array b = slice2 array (y_start b, y_end b) (x_start b, x_end b)"

text \<open>Lines 68 and 69.\<close>

definition min_y :: "region \<Rightarrow> region \<Rightarrow> nat" where
  "min_y cr ar = min (nrows cr) (nrows ar)"

definition min_x :: "region \<Rightarrow> region \<Rightarrow> nat" where
  "min_x cr ar = min (ncols cr) (ncols ar)"

text \<open>The view that line 72 writes and the view that it reads.\<close>

definition written_region :: "ndarray \<Rightarrow> ndarray \<Rightarrow> bounds \<Rightarrow> region" where
  "written_region cutout array b =
     (let cr = cutout_region cutout b; ar = array_region array b
      in head_region cr (min_y cr ar) (min_x cr ar))"

definition read_region :: "ndarray \<Rightarrow> ndarray \<Rightarrow> bounds \<Rightarrow> region" where
  "read_region cutout array b =
     (let cr = cutout_region cutout b; ar = array_region array b
      in head_region ar (min_y cr ar) (min_x cr ar))"

text \<open>
  Line 25, \<open>np.squeeze\<close>, removes every axis of length one from the image data. The
  image data is a raster of rows and columns, possibly wrapped in further axes of length
  one, which the squeeze removes in any case. A raster with one row or one column loses
  that axis too and is left with a single axis, and a raster of one row and one column
  is left with none.
\<close>

datatype squeezed = Scalar float64 | Vector "float64 list" | Matrix ndarray

definition np_squeeze :: "ndarray \<Rightarrow> squeezed" where
  "np_squeeze a =
     (if shape0 a = 1 \<and> shape1 a = 1 then Scalar (item a 0 0)
      else if shape0 a = 1 \<or> shape1 a = 1 then Vector (concat (rows a))
      else Matrix a)"

text \<open>Lines 47 to 72 for one rounded centre, on an array of two axes.\<close>

definition cutout_at :: "ndarray \<Rightarrow> int \<Rightarrow> int \<Rightarrow> int \<Rightarrow> int \<Rightarrow> error + ndarray" where
  "cutout_at array wsize half_size x y =
     (case np_full wsize NaN of
        Inl e \<Rightarrow> Inl e
      | Inr cutout \<Rightarrow>
          let b = slice_bounds array half_size x y
          in if overlaps b
             then region_set cutout (written_region cutout array b)
                    (region_get array (read_region cutout array b))
             else Inr cutout)"

text \<open>
  Lines 47 to 72 on the squeezed array. When the array has fewer than two axes, the
  cutout is still allocated on line 47 and line 50 computes \<open>x_start\<close> from numbers
  alone; then \<open>array.shape[1]\<close> on line 51 raises IndexError.
\<close>

definition cutout_of :: "squeezed \<Rightarrow> int \<Rightarrow> int \<Rightarrow> int \<Rightarrow> int \<Rightarrow> error + ndarray" where
  "cutout_of array wsize half_size x y =
     (case array of
        Matrix a \<Rightarrow> cutout_at a wsize half_size x y
      | Vector v \<Rightarrow>
          (case np_full wsize NaN of Inl e \<Rightarrow> Inl e | Inr cutout \<Rightarrow> Inl IndexError)
      | Scalar v \<Rightarrow>
          (case np_full wsize NaN of Inl e \<Rightarrow> Inl e | Inr cutout \<Rightarrow> Inl IndexError))"

text \<open>The loop body, lines 44 to 72: the \<open>x\<close> coordinate is rounded first.\<close>

definition one_cutout ::
  "squeezed \<Rightarrow> int \<Rightarrow> int \<Rightarrow> float64 \<Rightarrow> float64 \<Rightarrow> error + ndarray" where
  "one_cutout array wsize half_size fx fy =
     (case int_round fx of
        Inl e \<Rightarrow> Inl e
      | Inr x \<Rightarrow>
          (case int_round fy of
             Inl e \<Rightarrow> Inl e
           | Inr y \<Rightarrow> cutout_of array wsize half_size x y))"

text \<open>
  The loop of lines 42 to 75 over the zipped coordinates, appending to \<open>cutouts\<close>; the
  first exception leaves the loop and the call.
\<close>

fun cutouts_loop ::
  "squeezed \<Rightarrow> int \<Rightarrow> int \<Rightarrow> (float64 \<times> float64) list \<Rightarrow> ndarray list
     \<Rightarrow> error + ndarray list" where
  "cutouts_loop array wsize half_size [] cutouts = Inr cutouts"
| "cutouts_loop array wsize half_size ((fx, fy) # rest) cutouts =
     (case one_cutout array wsize half_size fx fy of
        Inl e \<Rightarrow> Inl e
      | Inr cutout \<Rightarrow> cutouts_loop array wsize half_size rest (cutouts @ [cutout]))"

text \<open>
  \<open>make_multiple_cutouts\<close> from line 25 on; \<open>wsize\<close> is its parameter \<open>size\<close>. Reading
  the image file and its header and projecting sky positions to pixels belong to
  external libraries: the model takes for \<open>data\<close> the raster that line 21 reads from
  the file, and the pixel coordinates \<open>x_pix\<close>, \<open>y_pix\<close> as line 34 returns them.
\<close>

definition make_multiple_cutouts ::
  "ndarray \<Rightarrow> float64 list \<Rightarrow> float64 list \<Rightarrow> int \<Rightarrow> error + ndarray list" where
  "make_multiple_cutouts data x_pix y_pix wsize =
     (let array = np_squeeze data;
          half_size = wsize div 2
      in cutouts_loop array wsize half_size (zip x_pix y_pix) [])"

section \<open>The contract in the words of the specification\<close>

text \<open>
  The specification describes a cutout element by element: position \<open>(r, c)\<close> of the
  cutout for the rounded centre \<open>(x, y)\<close> corresponds to the image position
  \<open>(y - half + r, x - half + c)\<close>; it holds that image sample when the position is a
  valid index of the image, and the sentinel otherwise.
\<close>

definition window_value :: "ndarray \<Rightarrow> int \<Rightarrow> int \<Rightarrow> int \<Rightarrow> nat \<Rightarrow> nat \<Rightarrow> float64" where
  "window_value array half x y r c =
     (let yy = y - half + int r; xx = x - half + int c
      in if 0 \<le> yy \<and> yy < int (shape0 array) \<and> 0 \<le> xx \<and> xx < int (shape1 array)
         then item array (nat yy) (nat xx) else NaN)"

definition window_array :: "ndarray \<Rightarrow> int \<Rightarrow> int \<Rightarrow> int \<Rightarrow> int \<Rightarrow> ndarray" where
  "window_array array wsize half x y =
     \<lparr>shape0 = nat wsize, shape1 = nat wsize,
      rows = map (\<lambda>r. map (\<lambda>c. window_value array half x y r c) [0..<nat wsize])
                 [0..<nat wsize]\<rparr>"

text \<open>
  The copy without the re-clamp of lines 68 to 72: the image view is assigned to the
  cutout view as the two were sliced.
\<close>

definition cutout_at_unclamped ::
  "ndarray \<Rightarrow> int \<Rightarrow> int \<Rightarrow> int \<Rightarrow> int \<Rightarrow> error + ndarray" where
  "cutout_at_unclamped array wsize half_size x y =
     (case np_full wsize NaN of
        Inl e \<Rightarrow> Inl e
      | Inr cutout \<Rightarrow>
          let b = slice_bounds array half_size x y
          in if overlaps b
             then region_set cutout (cutout_region cutout b)
                    (region_get array (array_region array b))
             else Inr cutout)"

text \<open>The five by five image of the specification's scenarios, holding 0 to 24 row by row.\<close>

definition raster5 :: ndarray where
  "raster5 = \<lparr>shape0 = 5, shape1 = 5,
     rows = map (\<lambda>i. map (\<lambda>j. Finite (of_nat (5 * i + j))) [0..<5]) [0..<5]\<rparr>"

section \<open>Slice arithmetic along one axis\<close>

lemma slice_index_nonneg: "0 \<le> i \<Longrightarrow> slice_index n i = min (nat i) n"
  by (simp add: slice_index_def)

lemma slice_index_inside: "0 \<le> i \<Longrightarrow> i \<le> int n \<Longrightarrow> slice_index n i = nat i"
  by (simp add: slice_index_def)

lemma slice_index_int: "0 \<le> i \<Longrightarrow> int (slice_index n i) = min i (int n)"
  by (simp add: slice_index_def)

lemma axis_facts:
  fixes n h x :: int and W :: nat
  assumes h: "2 * h \<le> n" "n \<le> 2 * h + 1"
    and ov: "max 0 (x - h) < min (int W) (x + h + 1)"
  defines "s \<equiv> max 0 (x - h)" and "e \<equiv> min (int W) (x + h + 1)" and "cs \<equiv> max 0 (h - x)"
  shows "0 \<le> s" "s < e" "e \<le> int W" "e \<le> x + h + 1" "0 \<le> cs" "cs - s = h - x" "cs \<le> n"
    "0 \<le> n"
proof -
  show s0: "0 \<le> s" by (simp add: s_def)
  show se: "s < e" using ov by (simp only: s_def e_def)
  show "e \<le> int W" by (simp add: e_def)
  show ex: "e \<le> x + h + 1" by (simp add: e_def)
  show cs0: "0 \<le> cs" by (simp add: cs_def)
  show rel: "cs - s = h - x" by (simp add: cs_def s_def max_def)
  show csn: "cs \<le> n" using rel se ex h(1) by linarith
  show "0 \<le> n" using cs0 csn by linarith
qed

lemma axis_cover:
  fixes n h x :: int and W j :: nat
  assumes h: "2 * h \<le> n" "n \<le> 2 * h + 1"
    and ov: "max 0 (x - h) < min (int W) (x + h + 1)"
    and j: "j < nat n"
    and s: "s = max 0 (x - h)" and e: "e = min (int W) (x + h + 1)"
    and c0: "c0 = slice_index (nat n) (max 0 (h - x))"
    and m: "m = min (slice_index (nat n) (max 0 (h - x) + (e - s)) - c0)
                     (slice_index W e - slice_index W s)"
  shows "(c0 \<le> j \<and> j < c0 + m) \<longleftrightarrow> (0 \<le> x - h + int j \<and> x - h + int j < int W)"
    and "c0 \<le> j \<Longrightarrow> j < c0 + m \<Longrightarrow> slice_index W s + (j - c0) = nat (x - h + int j)"
proof -
  define cs where "cs = max 0 (h - x)"
  define t where "t = cs + (e - s)"
  note f = axis_facts [OF h ov, folded s e cs_def]
  have jn: "int j < n" using j by linarith
  have c0i: "int c0 = cs"
    using f(5,7,8) by (simp add: c0 cs_def [symmetric] slice_index_int)
  have si: "slice_index W s = nat s"
    using f(1,2,3) by (intro slice_index_inside) linarith+
  have ei: "slice_index W e = nat e"
    using f(1,2,3) by (intro slice_index_inside) linarith+
  have t0: "0 \<le> t" "cs \<le> t" using f(2,5) by (simp_all add: t_def)
  define u where "u = slice_index (nat n) t"
  have ui: "int u = min t n"
    using t0(1) f(8) by (simp add: u_def slice_index_int)
  have cu: "c0 \<le> u"
    using c0i ui t0(2) f(7) by linarith
  have d1: "int (u - c0) = min t n - cs"
    using cu c0i ui by linarith
  have d2: "int (nat e - nat s) = e - s"
    using f(1,2) by linarith
  have "min t n - cs \<le> e - s"
    by (simp add: t_def)
  then have "u - c0 \<le> nat e - nat s"
    using d1 d2 by linarith
  then have mi: "m = u - c0"
    by (simp add: m u_def t_def cs_def si ei)
  have cm: "int (c0 + m) = min t n"
    using mi cu ui by linarith
  have lhs: "(c0 \<le> j \<and> j < c0 + m) \<longleftrightarrow> (cs \<le> int j \<and> int j < t)"
  proof -
    have "j < c0 + m \<longleftrightarrow> int j < min t n" using cm by linarith
    also have "\<dots> \<longleftrightarrow> int j < t" using jn by simp
    finally have "j < c0 + m \<longleftrightarrow> int j < t" .
    moreover have "c0 \<le> j \<longleftrightarrow> cs \<le> int j" using c0i by linarith
    ultimately show ?thesis by simp
  qed
  have r1: "cs \<le> int j \<longleftrightarrow> 0 \<le> x - h + int j"
    by (simp add: cs_def) linarith
  have "int j < t \<longleftrightarrow> x - h + int j < e"
    using f(6) by (simp add: t_def) linarith
  also have "\<dots> \<longleftrightarrow> x - h + int j < int W"
    using jn h(2) by (simp add: e)
  finally have r2: "int j < t \<longleftrightarrow> x - h + int j < int W" .
  show "(c0 \<le> j \<and> j < c0 + m) \<longleftrightarrow> (0 \<le> x - h + int j \<and> x - h + int j < int W)"
    using lhs r1 r2 by simp
  show "slice_index W s + (j - c0) = nat (x - h + int j)" if "c0 \<le> j" "j < c0 + m"
  proof -
    have "int (slice_index W s + (j - c0)) = s + (int j - cs)"
      using that(1) c0i f(1) by (simp add: si)
    also have "\<dots> = x - h + int j" using f(6) by linarith
    finally show ?thesis by linarith
  qed
qed

section \<open>One cutout\<close>

lemma no_overlap_axis:
  fixes n h x :: int and W j :: nat
  assumes "2 * h \<le> n" "n \<le> 2 * h + 1" "0 \<le> n"
    and "\<not> max 0 (x - h) < min (int W) (x + h + 1)"
    and "j < nat n"
  shows "\<not> (0 \<le> x - h + int j \<and> x - h + int j < int W)"
  using assms by linarith

lemma cutout_at_no_overlap:
  assumes n: "0 \<le> wsize" and h: "2 * h \<le> wsize" "wsize \<le> 2 * h + 1"
    and no: "\<not> overlaps (slice_bounds array h x y)"
  shows "cutout_at array wsize h x y = Inr (window_array array wsize h x y)"
proof -
  have v: "window_value array h x y r c = NaN" if "r < nat wsize" "c < nat wsize" for r c
  proof -
    from no have "\<not> max 0 (x - h) < min (int (shape1 array)) (x + h + 1)
        \<or> \<not> max 0 (y - h) < min (int (shape0 array)) (y + h + 1)"
      by (simp add: overlaps_def slice_bounds_def Let_def)
    then show ?thesis
      using no_overlap_axis [OF h n _ that(2), of x "shape1 array"]
        no_overlap_axis [OF h n _ that(1), of y "shape0 array"]
      by (auto simp add: window_value_def Let_def)
  qed
  have "rows (window_array array wsize h x y) = replicate (nat wsize) (replicate (nat wsize) NaN)"
    by (auto simp add: window_array_def v intro!: nth_equalityI)
  then have "window_array array wsize h x y
      = \<lparr>shape0 = nat wsize, shape1 = nat wsize,
         rows = replicate (nat wsize) (replicate (nat wsize) NaN)\<rparr>"
    by (simp add: window_array_def)
  then show ?thesis
    using n no by (simp add: cutout_at_def np_full_def)
qed

lemma region_get_item:
  "i < nrows g \<Longrightarrow> j < ncols g \<Longrightarrow> item (region_get a g) i j = item a (row0 g + i) (col0 g + j)"
  by (simp add: region_get_def item_def)

lemma region_get_shape:
  "shape0 (region_get a g) = nrows g" "shape1 (region_get a g) = ncols g"
  by (simp_all add: region_get_def)

lemma written_region_fields:
  "row0 (written_region c a b) = slice_index (shape0 c) (cutout_y_start b)"
  "col0 (written_region c a b) = slice_index (shape1 c) (cutout_x_start b)"
  "nrows (written_region c a b) =
     min (slice_index (shape0 c) (cutout_y_end b) - slice_index (shape0 c) (cutout_y_start b))
         (slice_index (shape0 a) (y_end b) - slice_index (shape0 a) (y_start b))"
  "ncols (written_region c a b) =
     min (slice_index (shape1 c) (cutout_x_end b) - slice_index (shape1 c) (cutout_x_start b))
         (slice_index (shape1 a) (x_end b) - slice_index (shape1 a) (x_start b))"
  by (simp_all add: written_region_def head_region_def cutout_region_def array_region_def
      slice2_def min_y_def min_x_def Let_def)

lemma read_region_fields:
  "row0 (read_region c a b) = slice_index (shape0 a) (y_start b)"
  "col0 (read_region c a b) = slice_index (shape1 a) (x_start b)"
  "nrows (read_region c a b) = nrows (written_region c a b)"
  "ncols (read_region c a b) = ncols (written_region c a b)"
  by (simp_all add: written_region_def read_region_def head_region_def cutout_region_def
      array_region_def slice2_def min_y_def min_x_def Let_def)

lemma slice_bounds_fields:
  "x_start (slice_bounds a h x y) = max 0 (x - h)"
  "x_end (slice_bounds a h x y) = min (int (shape1 a)) (x + h + 1)"
  "y_start (slice_bounds a h x y) = max 0 (y - h)"
  "y_end (slice_bounds a h x y) = min (int (shape0 a)) (y + h + 1)"
  "cutout_x_start (slice_bounds a h x y) = max 0 (h - x)"
  "cutout_x_end (slice_bounds a h x y)
     = max 0 (h - x) + (min (int (shape1 a)) (x + h + 1) - max 0 (x - h))"
  "cutout_y_start (slice_bounds a h x y) = max 0 (h - y)"
  "cutout_y_end (slice_bounds a h x y)
     = max 0 (h - y) + (min (int (shape0 a)) (y + h + 1) - max 0 (y - h))"
  by (simp_all add: slice_bounds_def Let_def)

lemma region_set_same_shape:
  assumes "shape0 v = nrows g" "shape1 v = ncols g"
  shows "region_set a g v =
     Inr (a\<lparr>rows := map (\<lambda>i. map (\<lambda>j.
            if row0 g \<le> i \<and> i < row0 g + nrows g \<and> col0 g \<le> j \<and> j < col0 g + ncols g
            then item v (i - row0 g) (j - col0 g) else item a i j)
          [0..<shape1 a]) [0..<shape0 a]\<rparr>)"
proof -
  have "(if row0 g \<le> i \<and> i < row0 g + nrows g \<and> col0 g \<le> j \<and> j < col0 g + ncols g
         then item v (if shape0 v = 1 then 0 else i - row0 g)
                     (if shape1 v = 1 then 0 else j - col0 g)
         else item a i j)
      = (if row0 g \<le> i \<and> i < row0 g + nrows g \<and> col0 g \<le> j \<and> j < col0 g + ncols g
         then item v (i - row0 g) (j - col0 g) else item a i j)" for i j
    using assms by auto
  then show ?thesis using assms by (simp add: region_set_def)
qed

lemma cutout_at_overlap:
  assumes n: "0 \<le> wsize" and h: "2 * h \<le> wsize" "wsize \<le> 2 * h + 1"
    and ov: "overlaps (slice_bounds array h x y)"
  shows "cutout_at array wsize h x y = Inr (window_array array wsize h x y)"
proof -
  define b where "b = slice_bounds array h x y"
  define cutout where "cutout = \<lparr>shape0 = nat wsize, shape1 = nat wsize,
      rows = replicate (nat wsize) (replicate (nat wsize) NaN)\<rparr>"
  define wr where "wr = written_region cutout array b"
  define rr where "rr = read_region cutout array b"
  have ovx: "max 0 (x - h) < min (int (shape1 array)) (x + h + 1)"
    and ovy: "max 0 (y - h) < min (int (shape0 array)) (y + h + 1)"
    using ov by (simp_all add: overlaps_def slice_bounds_fields)
  have sh: "shape0 cutout = nat wsize" "shape1 cutout = nat wsize"
    by (simp_all add: cutout_def)
  define sy where "sy = max 0 (y - h)"
  define ey where "ey = min (int (shape0 array)) (y + h + 1)"
  define c0y where "c0y = slice_index (nat wsize) (max 0 (h - y))"
  define my where "my = min (slice_index (nat wsize) (max 0 (h - y) + (ey - sy)) - c0y)
      (slice_index (shape0 array) ey - slice_index (shape0 array) sy)"
  define sx where "sx = max 0 (x - h)"
  define ex where "ex = min (int (shape1 array)) (x + h + 1)"
  define c0x where "c0x = slice_index (nat wsize) (max 0 (h - x))"
  define mx where "mx = min (slice_index (nat wsize) (max 0 (h - x) + (ex - sx)) - c0x)
      (slice_index (shape1 array) ex - slice_index (shape1 array) sx)"
  have wr: "row0 wr = c0y" "nrows wr = my" "col0 wr = c0x" "ncols wr = mx"
    by (simp_all add: wr_def b_def written_region_fields slice_bounds_fields sh
        c0y_def my_def sy_def ey_def c0x_def mx_def sx_def ex_def)
  have rr: "row0 rr = slice_index (shape0 array) sy" "nrows rr = my"
    "col0 rr = slice_index (shape1 array) sx" "ncols rr = mx"
    by (simp_all add: rr_def wr [unfolded wr_def] read_region_fields)
      (simp_all add: b_def slice_bounds_fields sy_def sx_def)
  have cell: "(if row0 wr \<le> i \<and> i < row0 wr + nrows wr \<and> col0 wr \<le> j \<and> j < col0 wr + ncols wr
         then item (region_get array rr) (i - row0 wr) (j - col0 wr) else item cutout i j)
       = window_value array h x y i j" if i: "i < nat wsize" and j: "j < nat wsize" for i j
  proof -
    note cy = axis_cover [OF h ovy i sy_def ey_def c0y_def my_def]
    note cx = axis_cover [OF h ovx j sx_def ex_def c0x_def mx_def]
    have iny: "(row0 wr \<le> i \<and> i < row0 wr + nrows wr)
        \<longleftrightarrow> (0 \<le> y - h + int i \<and> y - h + int i < int (shape0 array))"
      unfolding wr by (rule cy(1))
    have inx: "(col0 wr \<le> j \<and> j < col0 wr + ncols wr)
        \<longleftrightarrow> (0 \<le> x - h + int j \<and> x - h + int j < int (shape1 array))"
      unfolding wr by (rule cx(1))
    show ?thesis
    proof (cases "(row0 wr \<le> i \<and> i < row0 wr + nrows wr) \<and> (col0 wr \<le> j \<and> j < col0 wr + ncols wr)")
      case True
      have ri: "row0 rr + (i - row0 wr) = nat (y - h + int i)"
        unfolding wr rr using True unfolding wr by (intro cy(2)) simp_all
      have rj: "col0 rr + (j - col0 wr) = nat (x - h + int j)"
        unfolding wr rr using True unfolding wr by (intro cx(2)) simp_all
      have "i - row0 wr < nrows rr" "j - col0 wr < ncols rr"
        using True unfolding wr rr by linarith+
      then have "item (region_get array rr) (i - row0 wr) (j - col0 wr)
          = item array (nat (y - h + int i)) (nat (x - h + int j))"
        by (simp only: region_get_item ri rj)
      moreover have "0 \<le> y - h + int i \<and> y - h + int i < int (shape0 array)"
        "0 \<le> x - h + int j \<and> x - h + int j < int (shape1 array)"
        using True iny inx by blast+
      ultimately show ?thesis
        using True by (simp add: window_value_def Let_def)
    next
      case False
      then have nP: "\<not> (row0 wr \<le> i \<and> i < row0 wr + nrows wr \<and> col0 wr \<le> j \<and> j < col0 wr + ncols wr)"
        by blast
      have nQ: "\<not> (0 \<le> y - h + int i \<and> y - h + int i < int (shape0 array)
         \<and> 0 \<le> x - h + int j \<and> x - h + int j < int (shape1 array))"
        using False iny inx by blast
      have "item cutout i j = NaN"
        using i j by (simp add: cutout_def item_def)
      moreover have "window_value array h x y i j = NaN"
        unfolding window_value_def Let_def using nQ by (rule if_not_P)
      ultimately show ?thesis
        by (simp only: if_not_P [OF nP])
    qed
  qed
  have shapes: "shape0 (region_get array rr) = nrows wr" "shape1 (region_get array rr) = ncols wr"
    by (simp_all add: region_get_shape rr wr)
  have "region_set cutout wr (region_get array rr) = Inr (window_array array wsize h x y)"
    unfolding region_set_same_shape [OF shapes]
    by (simp add: window_array_def cutout_def cell cong: map_cong)
  then show ?thesis
    using n ov
    by (simp add: cutout_at_def np_full_def cutout_def [symmetric] b_def [symmetric]
        wr_def [symmetric] rr_def [symmetric] Let_def)
qed

lemma cutout_at_window:
  assumes "0 \<le> wsize" "2 * h \<le> wsize" "wsize \<le> 2 * h + 1"
  shows "cutout_at array wsize h x y = Inr (window_array array wsize h x y)"
  using assms cutout_at_overlap cutout_at_no_overlap by blast

section \<open>The batch\<close>

lemma np_squeeze_matrix:
  "shape0 a \<noteq> 1 \<Longrightarrow> shape1 a \<noteq> 1 \<Longrightarrow> np_squeeze a = Matrix a"
  by (simp add: np_squeeze_def)

lemma cutout_of_unit:
  assumes "0 \<le> wsize" "shape0 a = 1 \<or> shape1 a = 1"
  shows "cutout_of (np_squeeze a) wsize h x y = Inl IndexError"
  using assms by (auto simp add: cutout_of_def np_squeeze_def np_full_def)

lemma one_cutout_finite:
  assumes "0 \<le> wsize" "2 * h \<le> wsize" "wsize \<le> 2 * h + 1"
  shows "one_cutout (Matrix array) wsize h (Finite qx) (Finite qy)
     = Inr (window_array array wsize h (py_round qx) (py_round qy))"
  using cutout_at_window [OF assms] by (simp add: one_cutout_def cutout_of_def)

lemma cutouts_loop_map:
  assumes "\<And>c. c \<in> set cs \<Longrightarrow> one_cutout array wsize h (fst c) (snd c) = Inr (f c)"
  shows "cutouts_loop array wsize h cs acc = Inr (acc @ map f cs)"
  using assms
proof (induction cs arbitrary: acc)
  case Nil
  then show ?case by simp
next
  case (Cons c cs)
  obtain fx fy where c: "c = (fx, fy)" by (cases c)
  have "one_cutout array wsize h fx fy = Inr (f c)"
    using Cons.prems [of c] c by simp
  moreover have "cutouts_loop array wsize h cs (acc @ [f c]) = Inr ((acc @ [f c]) @ map f cs)"
    using Cons.prems by (intro Cons.IH) simp
  ultimately show ?case by (simp add: c)
qed

lemma cutouts_loop_error:
  assumes "c \<in> set cs" "isl (one_cutout array wsize h (fst c) (snd c))"
  shows "isl (cutouts_loop array wsize h cs acc)"
  using assms
proof (induction cs arbitrary: acc)
  case Nil
  then show ?case by simp
next
  case (Cons d cs)
  obtain fx fy where d: "d = (fx, fy)" by (cases d)
  show ?case
  proof (cases "one_cutout array wsize h fx fy")
    case (Inl e)
    then show ?thesis by (simp add: d)
  next
    case (Inr cutout)
    with Cons.prems d have "c \<in> set cs" by (auto simp add: isl_def)
    then show ?thesis using Cons.IH Cons.prems(2) Inr by (simp add: d)
  qed
qed

lemma zip_map_Finite:
  "zip (map Finite qxs) (map Finite qys) = map (\<lambda>(qx, qy). (Finite qx, Finite qy)) (zip qxs qys)"
  by (simp add: zip_map_map)

lemma make_multiple_cutouts_finite:
  assumes "0 \<le> wsize" and d: "shape0 array \<noteq> 1" "shape1 array \<noteq> 1"
  shows "make_multiple_cutouts array (map Finite qxs) (map Finite qys) wsize
     = Inr (map (\<lambda>(qx, qy). window_array array wsize (wsize div 2) (py_round qx) (py_round qy))
              (zip qxs qys))"
proof -
  let ?h = "wsize div 2"
  let ?f = "\<lambda>c. case c of (Finite qx, Finite qy) \<Rightarrow>
      window_array array wsize ?h (py_round qx) (py_round qy)"
  have h: "2 * ?h \<le> wsize" "wsize \<le> 2 * ?h + 1" by presburger+
  have "cutouts_loop (Matrix array) wsize ?h (zip (map Finite qxs) (map Finite qys)) []
      = Inr ([] @ map ?f (zip (map Finite qxs) (map Finite qys)))"
  proof (rule cutouts_loop_map)
    fix c assume "c \<in> set (zip (map Finite qxs) (map Finite qys))"
    then obtain qx qy where "c = (Finite qx, Finite qy)"
      by (auto simp add: zip_map_Finite)
    then show "one_cutout (Matrix array) wsize ?h (fst c) (snd c) = Inr (?f c)"
      using one_cutout_finite [OF assms(1) h] by simp
  qed
  moreover have "map ?f (zip (map Finite qxs) (map Finite qys))
      = map (\<lambda>(qx, qy). window_array array wsize ?h (py_round qx) (py_round qy)) (zip qxs qys)"
    by (simp add: zip_map_Finite split_def)
  ultimately show ?thesis
    by (simp add: make_multiple_cutouts_def np_squeeze_matrix [OF d])
qed

section \<open>Shape of the specified window\<close>

lemma window_array_shape:
  "shape0 (window_array array wsize h x y) = nat wsize"
  "shape1 (window_array array wsize h x y) = nat wsize"
  by (simp_all add: window_array_def)

lemma window_array_wf: "wf_array (window_array array wsize h x y)"
  by (simp add: wf_array_def window_array_def list_all_iff)

lemma window_array_count:
  "length (concat (rows (window_array array wsize h x y))) = nat wsize * nat wsize"
  by (simp add: window_array_def length_concat comp_def sum_list_triv)

lemma window_array_item:
  "r < nat wsize \<Longrightarrow> c < nat wsize \<Longrightarrow>
     item (window_array array wsize h x y) r c = window_value array h x y r c"
  by (simp add: window_array_def item_def)

lemma odd_half: "odd (n::int) \<Longrightarrow> n div 2 = (n - 1) div 2"
  by presburger

lemma window_array_all_nan:
  assumes "\<And>r c. r < nat wsize \<Longrightarrow> c < nat wsize \<Longrightarrow> window_value array h x y r c = NaN"
  shows "rows (window_array array wsize h x y) = replicate (nat wsize) (replicate (nat wsize) NaN)"
  by (auto simp add: window_array_def assms intro!: nth_equalityI)

lemma window_value_miss:
  assumes "x + h < 0 \<or> int (shape1 array) \<le> x - h \<or> y + h < 0 \<or> int (shape0 array) \<le> y - h"
    and "int r \<le> 2 * h" "int c \<le> 2 * h"
  shows "window_value array h x y r c = NaN"
proof -
  have "\<not> (0 \<le> y - h + int r \<and> y - h + int r < int (shape0 array)
       \<and> 0 \<le> x - h + int c \<and> x - h + int c < int (shape1 array))"
    using assms by linarith
  then show ?thesis
    unfolding window_value_def Let_def by (rule if_not_P)
qed

lemma batch_nth:
  assumes "0 \<le> wsize" "i < length (zip qxs qys)" "shape0 array \<noteq> 1" "shape1 array \<noteq> 1"
  shows "\<exists>cutouts. make_multiple_cutouts array (map Finite qxs) (map Finite qys) wsize = Inr cutouts
     \<and> length cutouts = length (zip qxs qys)
     \<and> cutouts ! i = window_array array wsize (wsize div 2) (py_round (qxs ! i)) (py_round (qys ! i))"
  using assms by (simp add: make_multiple_cutouts_finite)

lemma cutouts_loop_complete:
  assumes "map (\<lambda>c. one_cutout array wsize h (fst c) (snd c)) cs = map Inr ys"
  shows "cutouts_loop array wsize h cs acc = Inr (acc @ ys)"
  using assms
proof (induction cs arbitrary: acc ys)
  case Nil
  then show ?case by simp
next
  case (Cons c cs)
  obtain fx fy where c: "c = (fx, fy)" by (cases c)
  from Cons.prems obtain v zs where ys: "ys = v # zs"
    by (cases ys) simp_all
  from Cons.prems have hd: "one_cutout array wsize h fx fy = Inr v"
    and tl: "map (\<lambda>c. one_cutout array wsize h (fst c) (snd c)) cs = map Inr zs"
    by (simp_all add: ys c)
  have "cutouts_loop array wsize h cs (acc @ [v]) = Inr ((acc @ [v]) @ zs)"
    using tl by (rule Cons.IH)
  then show ?case by (simp add: c hd ys)
qed

lemma cutouts_loop_sound:
  assumes "cutouts_loop array wsize h cs acc = Inr out"
  shows "\<exists>ys. out = acc @ ys
     \<and> map (\<lambda>c. one_cutout array wsize h (fst c) (snd c)) cs = map Inr ys"
  using assms
proof (induction cs arbitrary: acc)
  case Nil
  then have "out = acc @ []" by simp
  then show ?case by (intro exI [of _ "[]"]) simp
next
  case (Cons c cs)
  obtain fx fy where c: "c = (fx, fy)" by (cases c)
  show ?case
  proof (cases "one_cutout array wsize h fx fy")
    case (Inl e)
    with Cons.prems show ?thesis by (simp add: c)
  next
    case (Inr v)
    with Cons.prems have "cutouts_loop array wsize h cs (acc @ [v]) = Inr out"
      by (simp add: c)
    then obtain zs where zs: "out = (acc @ [v]) @ zs"
      "map (\<lambda>c. one_cutout array wsize h (fst c) (snd c)) cs = map Inr zs"
      using Cons.IH by blast
    show ?thesis
      using zs Inr by (intro exI [of _ "v # zs"]) (simp add: c)
  qed
qed

lemma make_multiple_cutouts_success_iff:
  "make_multiple_cutouts array (map fst cs) (map snd cs) wsize = Inr out \<longleftrightarrow>
     map (\<lambda>c. one_cutout (np_squeeze array) wsize (wsize div 2) (fst c) (snd c)) cs = map Inr out"
proof
  assume "make_multiple_cutouts array (map fst cs) (map snd cs) wsize = Inr out"
  then have "cutouts_loop (np_squeeze array) wsize (wsize div 2) cs [] = Inr out"
    by (simp add: make_multiple_cutouts_def zip_map_fst_snd)
  from cutouts_loop_sound [OF this]
  show "map (\<lambda>c. one_cutout (np_squeeze array) wsize (wsize div 2) (fst c) (snd c)) cs = map Inr out"
    by simp
next
  assume "map (\<lambda>c. one_cutout (np_squeeze array) wsize (wsize div 2) (fst c) (snd c)) cs = map Inr out"
  from cutouts_loop_complete [OF this, of "[]"]
  show "make_multiple_cutouts array (map fst cs) (map snd cs) wsize = Inr out"
    by (simp add: make_multiple_cutouts_def zip_map_fst_snd)
qed

lemma make_multiple_cutouts_failure:
  assumes "c \<in> set cs" "isl (one_cutout (np_squeeze array) wsize (wsize div 2) (fst c) (snd c))"
  shows "isl (make_multiple_cutouts array (map fst cs) (map snd cs) wsize)"
  using cutouts_loop_error [OF assms]
  by (simp add: make_multiple_cutouts_def zip_map_fst_snd)

lemma make_multiple_cutouts_failure_elem:
  assumes "isl (make_multiple_cutouts array (map fst cs) (map snd cs) wsize)"
  shows "\<exists>c \<in> set cs. isl (one_cutout (np_squeeze array) wsize (wsize div 2) (fst c) (snd c))"
proof (rule ccontr)
  let ?f = "\<lambda>c. one_cutout (np_squeeze array) wsize (wsize div 2) (fst c) (snd c)"
  assume "\<not> ?thesis"
  then have "?f c = Inr (projr (?f c))" if "c \<in> set cs" for c
    using that by simp
  then have "map ?f cs = map Inr (map (\<lambda>c. projr (?f c)) cs)"
    by simp
  then have "make_multiple_cutouts array (map fst cs) (map snd cs) wsize
      = Inr (map (\<lambda>c. projr (?f c)) cs)"
    by (simp only: make_multiple_cutouts_success_iff)
  with assms show False by simp
qed

lemma one_cutout_nonfinite:
  assumes "\<not> is_finite fx \<or> \<not> is_finite fy"
  shows "isl (one_cutout array wsize h fx fy)"
  using assms by (cases fx; cases fy) (simp_all add: one_cutout_def)

lemma cutout_at_negative:
  "wsize < 0 \<Longrightarrow> cutout_at array wsize h x y = Inl ValueError"
  by (simp add: cutout_at_def np_full_def)

lemma cutout_of_negative:
  "wsize < 0 \<Longrightarrow> cutout_of array wsize h x y = Inl ValueError"
  by (cases array) (simp_all add: cutout_of_def cutout_at_negative np_full_def)

lemma window_value_degenerate:
  assumes "shape0 array = 0 \<or> shape1 array = 0"
  shows "window_value array h x y r c = NaN"
proof -
  have "\<not> (0 \<le> y - h + int r \<and> y - h + int r < int (shape0 array)
       \<and> 0 \<le> x - h + int c \<and> x - h + int c < int (shape1 array))"
    using assms by linarith
  then show ?thesis
    unfolding window_value_def Let_def by (rule if_not_P)
qed

lemma py_round_cases:
  fixes q :: rat
  defines "d \<equiv> q - of_int \<lfloor>q\<rfloor>"
  shows "0 \<le> d" "d < 1"
    "d < 1 / 2 \<Longrightarrow> py_round q = \<lfloor>q\<rfloor>"
    "1 / 2 < d \<Longrightarrow> py_round q = \<lfloor>q\<rfloor> + 1"
    "d = 1 / 2 \<Longrightarrow> even \<lfloor>q\<rfloor> \<Longrightarrow> py_round q = \<lfloor>q\<rfloor>"
    "d = 1 / 2 \<Longrightarrow> odd \<lfloor>q\<rfloor> \<Longrightarrow> py_round q = \<lfloor>q\<rfloor> + 1"
proof -
  show "0 \<le> d" "d < 1"
    using floor_correct [of q] by (simp_all add: d_def)
  show "d < 1 / 2 \<Longrightarrow> py_round q = \<lfloor>q\<rfloor>"
    by (simp add: py_round_def d_def Let_def)
  show "1 / 2 < d \<Longrightarrow> py_round q = \<lfloor>q\<rfloor> + 1"
    by (simp add: py_round_def d_def Let_def)
  show "d = 1 / 2 \<Longrightarrow> even \<lfloor>q\<rfloor> \<Longrightarrow> py_round q = \<lfloor>q\<rfloor>"
    by (simp add: py_round_def d_def Let_def)
  show "d = 1 / 2 \<Longrightarrow> odd \<lfloor>q\<rfloor> \<Longrightarrow> py_round q = \<lfloor>q\<rfloor> + 1"
    by (simp add: py_round_def d_def Let_def)
qed

lemma py_round_distance:
  fixes q :: rat
  defines "d \<equiv> q - of_int \<lfloor>q\<rfloor>"
  shows "\<bar>of_int (py_round q) - q\<bar> = min d (1 - d)"
proof -
  note c = py_round_cases [of q, folded d_def]
  consider "d < 1 / 2" | "1 / 2 < d" | "d = 1 / 2" "even \<lfloor>q\<rfloor>" | "d = 1 / 2" "odd \<lfloor>q\<rfloor>"
    by fastforce
  then show ?thesis
  proof cases
    case 1
    have "of_int (py_round q) - q = - d" by (simp add: c(3) [OF 1] d_def)
    then show ?thesis using 1 c(1) by simp
  next
    case 2
    have "of_int (py_round q) - q = 1 - d" by (simp add: c(4) [OF 2] d_def)
    then show ?thesis using 2 c(2) by simp
  next
    case 3
    have "of_int (py_round q) - q = - d" by (simp add: c(5) [OF 3] d_def)
    then show ?thesis using 3 by simp
  next
    case 4
    have "of_int (py_round q) - q = 1 - d" by (simp add: c(6) [OF 4] d_def)
    then show ?thesis using 4 by simp
  qed
qed

lemma integer_distance:
  fixes q :: rat and k :: int
  shows "min (q - of_int \<lfloor>q\<rfloor>) (1 - (q - of_int \<lfloor>q\<rfloor>)) \<le> \<bar>of_int k - q\<bar>"
proof (cases "k \<le> \<lfloor>q\<rfloor>")
  case True
  then have "(of_int k :: rat) \<le> of_int \<lfloor>q\<rfloor>" by (simp only: of_int_le_iff)
  then show ?thesis using floor_correct [of q] by linarith
next
  case False
  then have "\<lfloor>q\<rfloor> + 1 \<le> k" by simp
  then have "(of_int (\<lfloor>q\<rfloor> + 1) :: rat) \<le> of_int k" by (simp only: of_int_le_iff)
  then have "(of_int \<lfloor>q\<rfloor> :: rat) + 1 \<le> of_int k" by simp
  then show ?thesis using floor_correct [of q] by linarith
qed

lemma py_round_tie_even:
  fixes q :: rat
  assumes "q - of_int \<lfloor>q\<rfloor> = 1 / 2"
  shows "even (py_round q)"
proof (cases "even \<lfloor>q\<rfloor>")
  case True
  then show ?thesis using py_round_cases(5) [OF assms] by simp
next
  case False
  then show ?thesis using py_round_cases(6) [OF assms] by simp
qed

lemma slice_index_le: "slice_index n i \<le> n"
  unfolding slice_index_def by (cases "i < 0") simp_all

lemma cutout_region_fields:
  "row0 (cutout_region c b) = slice_index (shape0 c) (cutout_y_start b)"
  "col0 (cutout_region c b) = slice_index (shape1 c) (cutout_x_start b)"
  "nrows (cutout_region c b)
     = slice_index (shape0 c) (cutout_y_end b) - slice_index (shape0 c) (cutout_y_start b)"
  "ncols (cutout_region c b)
     = slice_index (shape1 c) (cutout_x_end b) - slice_index (shape1 c) (cutout_x_start b)"
  by (simp_all add: cutout_region_def slice2_def Let_def)

lemma array_region_fields:
  "row0 (array_region a b) = slice_index (shape0 a) (y_start b)"
  "col0 (array_region a b) = slice_index (shape1 a) (x_start b)"
  "nrows (array_region a b) = slice_index (shape0 a) (y_end b) - slice_index (shape0 a) (y_start b)"
  "ncols (array_region a b) = slice_index (shape1 a) (x_end b) - slice_index (shape1 a) (x_start b)"
  by (simp_all add: array_region_def slice2_def Let_def)

lemma np_full_shape:
  assumes "np_full n v = Inr c"
  shows "0 \<le> n" "shape0 c = nat n" "shape1 c = nat n"
    "c = \<lparr>shape0 = nat n, shape1 = nat n, rows = replicate (nat n) (replicate (nat n) v)\<rparr>"
  using assms by (auto simp add: np_full_def split: if_splits)

lemma axis_shapes_odd:
  fixes n h x :: int and W :: nat
  assumes n: "n = 2 * h + 1"
    and ov: "max 0 (x - h) < min (int W) (x + h + 1)"
  defines "s \<equiv> max 0 (x - h)" and "e \<equiv> min (int W) (x + h + 1)" and "cs \<equiv> max 0 (h - x)"
  shows "cs + (e - s) \<le> n"
    and "slice_index (nat n) (cs + (e - s)) - slice_index (nat n) cs
         = slice_index W e - slice_index W s"
proof -
  have h: "2 * h \<le> n" "n \<le> 2 * h + 1" using n by simp_all
  note f = axis_facts [OF h ov, folded s_def e_def cs_def]
  show le: "cs + (e - s) \<le> n" using f(4,6) n by linarith
  have t0: "0 \<le> cs + (e - s)" using f(2,5) by linarith
  have "slice_index (nat n) (cs + (e - s)) = nat (cs + (e - s))"
    using t0 le f(8) by (intro slice_index_inside) simp_all
  moreover have "slice_index (nat n) cs = nat cs"
    using f(5,7,8) by (intro slice_index_inside) simp_all
  moreover have "slice_index W s = nat s"
    using f(1,2,3) by (intro slice_index_inside) linarith+
  moreover have "slice_index W e = nat e"
    using f(1,2,3) by (intro slice_index_inside) linarith+
  moreover have "nat (cs + (e - s)) - nat cs = nat e - nat s"
    using f(1,2,5) by linarith
  ultimately show "slice_index (nat n) (cs + (e - s)) - slice_index (nat n) cs
         = slice_index W e - slice_index W s"
    by simp
qed

lemma head_region_same:
  "head_region g (min (nrows g) m) (min (ncols g) n) = g\<lparr>nrows := min (nrows g) m, ncols := min (ncols g) n\<rparr>"
  by (simp add: head_region_def)

lemma written_region_within:
  "row0 (written_region c a b) + nrows (written_region c a b) \<le> shape0 c"
  "col0 (written_region c a b) + ncols (written_region c a b) \<le> shape1 c"
proof -
  have "r + min (r' - r) m \<le> n" if "r \<le> n" "r' \<le> n" for r r' m n :: nat
    using that by linarith
  then show "row0 (written_region c a b) + nrows (written_region c a b) \<le> shape0 c"
    "col0 (written_region c a b) + ncols (written_region c a b) \<le> shape1 c"
    unfolding written_region_fields by (simp_all only: slice_index_le)
qed

lemma read_region_within:
  "row0 (read_region c a b) + nrows (read_region c a b) \<le> shape0 a"
  "col0 (read_region c a b) + ncols (read_region c a b) \<le> shape1 a"
proof -
  have "r + min m (r' - r) \<le> n" if "r \<le> n" "r' \<le> n" for r r' m n :: nat
    using that by linarith
  then show "row0 (read_region c a b) + nrows (read_region c a b) \<le> shape0 a"
    "col0 (read_region c a b) + ncols (read_region c a b) \<le> shape1 a"
    unfolding read_region_fields written_region_fields by (simp_all only: slice_index_le)
qed

lemma region_indices_within:
  assumes "row0 g + nrows g \<le> H" "col0 g + ncols g \<le> W"
  shows "\<forall>(i, j) \<in> set (region_indices g). i < H \<and> j < W"
  using assms by (auto simp add: region_indices_def)

lemma raw_bounds_odd:
  assumes w: "wsize = 2 * h + 1" and ov: "overlaps (slice_bounds array h x y)"
  shows "0 \<le> y_start (slice_bounds array h x y)"
    "y_end (slice_bounds array h x y) \<le> int (shape0 array)"
    "0 \<le> x_start (slice_bounds array h x y)"
    "x_end (slice_bounds array h x y) \<le> int (shape1 array)"
    "0 \<le> cutout_y_start (slice_bounds array h x y)"
    "cutout_y_end (slice_bounds array h x y) \<le> wsize"
    "0 \<le> cutout_x_start (slice_bounds array h x y)"
    "cutout_x_end (slice_bounds array h x y) \<le> wsize"
proof -
  have ovx: "max 0 (x - h) < min (int (shape1 array)) (x + h + 1)"
    and ovy: "max 0 (y - h) < min (int (shape0 array)) (y + h + 1)"
    using ov by (simp_all add: overlaps_def slice_bounds_fields)
  show "0 \<le> y_start (slice_bounds array h x y)"
    "y_end (slice_bounds array h x y) \<le> int (shape0 array)"
    "0 \<le> x_start (slice_bounds array h x y)"
    "x_end (slice_bounds array h x y) \<le> int (shape1 array)"
    "0 \<le> cutout_y_start (slice_bounds array h x y)"
    "0 \<le> cutout_x_start (slice_bounds array h x y)"
    by (simp_all add: slice_bounds_fields)
  show "cutout_y_end (slice_bounds array h x y) \<le> wsize"
    unfolding slice_bounds_fields by (rule axis_shapes_odd(1) [OF w ovy])
  show "cutout_x_end (slice_bounds array h x y) \<le> wsize"
    unfolding slice_bounds_fields by (rule axis_shapes_odd(1) [OF w ovx])
qed

lemma axis_shapes_even_inside:
  fixes n h x :: int and W :: nat
  assumes n: "n = 2 * h" and h: "1 \<le> h" and lo: "0 \<le> x - h" and hi: "x + h + 1 \<le> int W"
  shows "max 0 (x - h) < min (int W) (x + h + 1)"
    and "slice_index W (min (int W) (x + h + 1)) - slice_index W (max 0 (x - h)) = nat n + 1"
    and "slice_index (nat n) (max 0 (h - x) + (min (int W) (x + h + 1) - max 0 (x - h)))
           - slice_index (nat n) (max 0 (h - x)) = nat n"
proof -
  have s: "max 0 (x - h) = x - h" using lo by simp
  have e: "min (int W) (x + h + 1) = x + h + 1" using hi by simp
  have cs: "max 0 (h - x) = 0" using lo by simp
  show "max 0 (x - h) < min (int W) (x + h + 1)"
    unfolding s e using h by linarith
  have "slice_index W (x + h + 1) = nat (x + h + 1)"
    using lo h hi by (intro slice_index_inside) linarith+
  moreover have "slice_index W (x - h) = nat (x - h)"
    using lo h hi by (intro slice_index_inside) linarith+
  moreover have "nat (x + h + 1) - nat (x - h) = nat n + 1"
    using lo h n by linarith
  ultimately show "slice_index W (min (int W) (x + h + 1)) - slice_index W (max 0 (x - h))
      = nat n + 1"
    unfolding s e by simp
  have "0 + (x + h + 1 - (x - h)) = n + 1" using n by linarith
  moreover have "slice_index (nat n) (n + 1) = nat n"
    using h n by (simp add: slice_index_def)
  moreover have "slice_index (nat n) 0 = 0"
    by (simp add: slice_index_def)
  ultimately show "slice_index (nat n) (max 0 (h - x) + (min (int W) (x + h + 1) - max 0 (x - h)))
           - slice_index (nat n) (max 0 (h - x)) = nat n"
    unfolding s e cs by simp
qed

lemma raster5_dims: "shape0 raster5 \<noteq> 1" "shape1 raster5 \<noteq> 1"
  by (simp_all add: raster5_def)

lemma unit_axis_raises:
  assumes "0 \<le> wsize" and "shape0 array = 1 \<or> shape1 array = 1" and "zip qxs qys \<noteq> []"
  shows "make_multiple_cutouts array (map Finite qxs) (map Finite qys) wsize = Inl IndexError"
proof -
  obtain qx qy rest where z: "zip qxs qys = (qx, qy) # rest"
    using assms(3) by (cases "zip qxs qys") auto
  have "one_cutout (np_squeeze array) wsize (wsize div 2) (Finite qx) (Finite qy)
      = Inl IndexError"
    using assms(1,2) by (simp add: one_cutout_def cutout_of_unit)
  then show ?thesis
    by (simp add: make_multiple_cutouts_def zip_map_Finite z)
qed

section \<open>Claims\<close>

text \<open>
  C2. For every image with neither one row nor one column, every positive odd size and
  every sequence of finite centres the call returns a batch with exactly one cutout per
  centre, in other words as many cutouts as the loop has coordinate pairs, and every
  cutout has the shape \<open>size \<times> size\<close> with \<open>size * size\<close> elements, however much of
  its window lies outside the image.
\<close>

theorem batch_length_and_shape:
  assumes "0 < wsize" and "odd wsize"
    and "shape0 array \<noteq> 1" and "shape1 array \<noteq> 1"
  shows "\<exists>cutouts.
      make_multiple_cutouts array (map Finite qxs) (map Finite qys) wsize = Inr cutouts
      \<and> length cutouts = length (zip (map Finite qxs) (map Finite qys))
      \<and> (\<forall>c \<in> set cutouts. shape0 c = nat wsize \<and> shape1 c = nat wsize \<and> wf_array c
            \<and> length (concat (rows c)) = nat wsize * nat wsize)"
proof -
  have "0 \<le> wsize" using assms(1) by simp
  note eq = make_multiple_cutouts_finite [OF this assms(3,4), of qxs qys]
  show ?thesis
    unfolding eq
    by (auto simp add: window_array_shape window_array_wf window_array_count)
qed

theorem batch_length_and_shape_witness:
  "0 < (3::int) \<and> odd (3::int) \<and> shape0 raster5 \<noteq> 1 \<and> shape1 raster5 \<noteq> 1
   \<and> (\<exists>cutouts.
      make_multiple_cutouts raster5 (map Finite [0, 2, - 1000]) (map Finite [0, 2, - 1000]) 3
        = Inr cutouts
      \<and> length cutouts = length (zip (map Finite [0, 2, - 1000 :: rat]) (map Finite [0, 2, - 1000 :: rat]))
      \<and> (\<forall>c \<in> set cutouts. shape0 c = nat 3 \<and> shape1 c = nat 3 \<and> wf_array c
            \<and> length (concat (rows c)) = nat 3 * nat 3))"
proof -
  have h1: "0 < (3::int)" and h2: "odd (3::int)" by simp_all
  note d = raster5_dims
  show ?thesis
    using h1 h2 d batch_length_and_shape [OF h1 h2 d, of "[0, 2, - 1000]" "[0, 2, - 1000]"]
    by blast
qed

theorem batch_length_and_shape_counterexample:
  "make_multiple_cutouts
     \<lparr>shape0 = 5, shape1 = 1,
      rows = [[Finite 0], [Finite 1], [Finite 2], [Finite 3], [Finite 4]]\<rparr>
     [Finite 0] [Finite 2] 3
   = Inl IndexError"
  by code_simp

text \<open>
  C6. On the five by five image holding 0 to 24 row by row and with size 3, the cutout
  for the centre \<open>(0, 0)\<close> has the sentinel in its whole first row and whole first
  column, the positions that correspond to negative image indices, and the image values
  \<open>[[0, 1], [5, 6]]\<close> in the opposite two by two corner; the cutout for the centre
  \<open>(2, 2)\<close> is the middle block of the image with no sentinel.
\<close>

theorem corner_and_centre_scenarios:
  "make_multiple_cutouts raster5 [Finite 0] [Finite 0] 3
     = Inr [\<lparr>shape0 = 3, shape1 = 3,
             rows = [[NaN, NaN, NaN],
                     [NaN, Finite 0, Finite 1],
                     [NaN, Finite 5, Finite 6]]\<rparr>]
   \<and> make_multiple_cutouts raster5 [Finite 2] [Finite 2] 3
     = Inr [\<lparr>shape0 = 3, shape1 = 3,
             rows = [[Finite 6, Finite 7, Finite 8],
                     [Finite 11, Finite 12, Finite 13],
                     [Finite 16, Finite 17, Finite 18]]\<rparr>]"
  by code_simp

text \<open>
  C1. For every image with neither one row nor one column, every positive odd size and
  every finite centre of a batch, the cutout returned for that centre is determined
  element by element: with the centre
  rounded to \<open>(x, y)\<close> and \<open>half = (size - 1) div 2\<close>, the element at row \<open>r\<close> and column
  \<open>c\<close> corresponds to the image position \<open>(y - half + r, x - half + c)\<close>; when that is a
  valid index of the image the element is exactly that image sample, and otherwise it is
  the sentinel. In particular a centre whose whole window misses the image yields a
  cutout holding the sentinel everywhere. The statement covers every image of at least
  two rows and two columns.
\<close>

theorem cutout_elements:
  assumes "0 < wsize" and "odd wsize" and "i < length (zip qxs qys)"
    and "shape0 array \<noteq> 1" and "shape1 array \<noteq> 1"
  shows "\<exists>cutouts.
      make_multiple_cutouts array (map Finite qxs) (map Finite qys) wsize = Inr cutouts
      \<and> i < length cutouts
      \<and> (\<forall>r < nat wsize. \<forall>c < nat wsize.
           (let yy = py_round (qys ! i) - (wsize - 1) div 2 + int r;
                xx = py_round (qxs ! i) - (wsize - 1) div 2 + int c
            in if 0 \<le> yy \<and> yy < int (shape0 array) \<and> 0 \<le> xx \<and> xx < int (shape1 array)
               then item (cutouts ! i) r c = item array (nat yy) (nat xx)
               else item (cutouts ! i) r c = NaN))
      \<and> (py_round (qxs ! i) + (wsize - 1) div 2 < 0
           \<or> int (shape1 array) \<le> py_round (qxs ! i) - (wsize - 1) div 2
           \<or> py_round (qys ! i) + (wsize - 1) div 2 < 0
           \<or> int (shape0 array) \<le> py_round (qys ! i) - (wsize - 1) div 2
         \<longrightarrow> rows (cutouts ! i) = replicate (nat wsize) (replicate (nat wsize) NaN))"
proof -
  define h where "h = (wsize - 1) div 2"
  have hh: "wsize div 2 = h" using assms(2) by (simp add: h_def odd_half)
  have w: "wsize = 2 * h + 1" using assms(2) unfolding h_def by presburger
  have n: "0 \<le> wsize" using assms(1) by simp
  obtain cutouts where c: "make_multiple_cutouts array (map Finite qxs) (map Finite qys) wsize = Inr cutouts"
    and len: "length cutouts = length (zip qxs qys)"
    and nth: "cutouts ! i = window_array array wsize h (py_round (qxs ! i)) (py_round (qys ! i))"
    using batch_nth [OF n assms(3,4,5)] unfolding hh by blast
  have el: "\<forall>r < nat wsize. \<forall>c < nat wsize.
           (let yy = py_round (qys ! i) - h + int r;
                xx = py_round (qxs ! i) - h + int c
            in if 0 \<le> yy \<and> yy < int (shape0 array) \<and> 0 \<le> xx \<and> xx < int (shape1 array)
               then item (cutouts ! i) r c = item array (nat yy) (nat xx)
               else item (cutouts ! i) r c = NaN)"
    by (simp add: nth window_array_item window_value_def Let_def)
  have miss: "rows (cutouts ! i) = replicate (nat wsize) (replicate (nat wsize) NaN)"
    if m: "py_round (qxs ! i) + h < 0 \<or> int (shape1 array) \<le> py_round (qxs ! i) - h
           \<or> py_round (qys ! i) + h < 0 \<or> int (shape0 array) \<le> py_round (qys ! i) - h"
    unfolding nth
  proof (rule window_array_all_nan)
    fix r c assume "r < nat wsize" "c < nat wsize"
    then have "int r \<le> 2 * h" "int c \<le> 2 * h" using w by linarith+
    then show "window_value array h (py_round (qxs ! i)) (py_round (qys ! i)) r c = NaN"
      using m by (intro window_value_miss)
  qed
  show ?thesis
    unfolding h_def [symmetric]
    using c len assms(3) el miss by (intro exI [of _ cutouts]) simp
qed


theorem cutout_elements_witness:
  "0 < (3::int) \<and> odd (3::int) \<and> shape0 raster5 \<noteq> 1 \<and> shape1 raster5 \<noteq> 1
   \<and> 0 < length (zip [0, - 1000 :: rat] [0, - 1000 :: rat])
   \<and> 1 < length (zip [0, - 1000 :: rat] [0, - 1000 :: rat])
   \<and> py_round ([0, - 1000] ! 1) + (3 - 1) div 2 < 0
   \<and> (\<exists>cutouts.
      make_multiple_cutouts raster5 (map Finite [0, - 1000]) (map Finite [0, - 1000]) 3 = Inr cutouts
      \<and> 0 < length cutouts
      \<and> (\<forall>r < nat 3. \<forall>c < nat 3.
           (let yy = py_round ([0, - 1000] ! 0) - (3 - 1) div 2 + int r;
                xx = py_round ([0, - 1000] ! 0) - (3 - 1) div 2 + int c
            in if 0 \<le> yy \<and> yy < int (shape0 raster5) \<and> 0 \<le> xx \<and> xx < int (shape1 raster5)
               then item (cutouts ! 0) r c = item raster5 (nat yy) (nat xx)
               else item (cutouts ! 0) r c = NaN))
      \<and> (py_round ([0, - 1000] ! 0) + (3 - 1) div 2 < 0
           \<or> int (shape1 raster5) \<le> py_round ([0, - 1000] ! 0) - (3 - 1) div 2
           \<or> py_round ([0, - 1000] ! 0) + (3 - 1) div 2 < 0
           \<or> int (shape0 raster5) \<le> py_round ([0, - 1000] ! 0) - (3 - 1) div 2
         \<longrightarrow> rows (cutouts ! 0) = replicate (nat 3) (replicate (nat 3) NaN)))
   \<and> (\<exists>cutouts.
      make_multiple_cutouts raster5 (map Finite [0, - 1000]) (map Finite [0, - 1000]) 3 = Inr cutouts
      \<and> 1 < length cutouts
      \<and> (\<forall>r < nat 3. \<forall>c < nat 3.
           (let yy = py_round ([0, - 1000] ! 1) - (3 - 1) div 2 + int r;
                xx = py_round ([0, - 1000] ! 1) - (3 - 1) div 2 + int c
            in if 0 \<le> yy \<and> yy < int (shape0 raster5) \<and> 0 \<le> xx \<and> xx < int (shape1 raster5)
               then item (cutouts ! 1) r c = item raster5 (nat yy) (nat xx)
               else item (cutouts ! 1) r c = NaN))
      \<and> (py_round ([0, - 1000] ! 1) + (3 - 1) div 2 < 0
           \<or> int (shape1 raster5) \<le> py_round ([0, - 1000] ! 1) - (3 - 1) div 2
           \<or> py_round ([0, - 1000] ! 1) + (3 - 1) div 2 < 0
           \<or> int (shape0 raster5) \<le> py_round ([0, - 1000] ! 1) - (3 - 1) div 2
         \<longrightarrow> rows (cutouts ! 1) = replicate (nat 3) (replicate (nat 3) NaN)))"
proof -
  have h1: "0 < (3::int)" and h2: "odd (3::int)" by simp_all
  have i0: "0 < length (zip [0, - 1000 :: rat] [0, - 1000 :: rat])"
    and i1: "1 < length (zip [0, - 1000 :: rat] [0, - 1000 :: rat])" by simp_all
  have m: "py_round ([0, - 1000] ! 1) + (3 - 1) div 2 < 0"
    by (simp add: py_round_def)
  note d = raster5_dims
  show ?thesis
    using h1 h2 d i0 i1 m
      cutout_elements [OF h1 h2 i0 d]
      cutout_elements [OF h1 h2 i1 d]
    by blast
qed

theorem cutout_elements_counterexample:
  "make_multiple_cutouts
     \<lparr>shape0 = 1, shape1 = 5,
      rows = [[Finite 0, Finite 1, Finite 2, Finite 3, Finite 4]]\<rparr>
     [Finite 2] [Finite 0] 3
   = Inl IndexError"
  by code_simp

text \<open>
  C9. Each cutout of a returned batch depends only on the image, the size and its own
  centre: the cutout at position \<open>i\<close> is what the loop body yields for centre \<open>i\<close>
  alone, so the output has the length and the order of the input. Consequently, for
  any permutation \<open>p\<close> of the positions, the call on the permuted centres returns the
  identically permuted batch. A call that fails on some centre fails on every
  permutation of the centres as well.
\<close>

theorem batch_order_preserved:
  assumes "bij_betw p {..<length cs} {..<length cs}"
  shows "(\<forall>out. make_multiple_cutouts array (map fst cs) (map snd cs) wsize = Inr out \<longrightarrow>
            length out = length cs
            \<and> (\<forall>i < length cs.
                 one_cutout (np_squeeze array) wsize (wsize div 2) (fst (cs ! i)) (snd (cs ! i)) = Inr (out ! i))
            \<and> make_multiple_cutouts array
                 (map fst (map (\<lambda>i. cs ! p i) [0..<length cs]))
                 (map snd (map (\<lambda>i. cs ! p i) [0..<length cs])) wsize
               = Inr (map (\<lambda>i. out ! p i) [0..<length cs]))
       \<and> (isl (make_multiple_cutouts array (map fst cs) (map snd cs) wsize) \<longrightarrow>
            isl (make_multiple_cutouts array
                 (map fst (map (\<lambda>i. cs ! p i) [0..<length cs]))
                 (map snd (map (\<lambda>i. cs ! p i) [0..<length cs])) wsize))"
proof -
  let ?f = "\<lambda>c. one_cutout (np_squeeze array) wsize (wsize div 2) (fst c) (snd c)"
  let ?cs' = "map (\<lambda>i. cs ! p i) [0..<length cs]"
  have pin: "p i < length cs" if "i < length cs" for i
    using assms that by (auto simp add: bij_betw_def)
  have ok: "length out = length cs
      \<and> (\<forall>i < length cs. ?f (cs ! i) = Inr (out ! i))
      \<and> make_multiple_cutouts array (map fst ?cs') (map snd ?cs') wsize
          = Inr (map (\<lambda>i. out ! p i) [0..<length cs])"
    if "make_multiple_cutouts array (map fst cs) (map snd cs) wsize = Inr out" for out
  proof -
    from that have eq: "map ?f cs = map Inr out"
      by (simp only: make_multiple_cutouts_success_iff)
    have len: "length out = length cs"
      using arg_cong [OF eq, of length] by simp
    have nth: "?f (cs ! i) = Inr (out ! i)" if "i < length cs" for i
      using that len arg_cong [OF eq, of "\<lambda>xs. xs ! i"] by simp
    have "map ?f ?cs' = map Inr (map (\<lambda>i. out ! p i) [0..<length cs])"
      using nth pin by simp
    then have fin: "make_multiple_cutouts array (map fst ?cs') (map snd ?cs') wsize
        = Inr (map (\<lambda>i. out ! p i) [0..<length cs])"
      by (simp only: make_multiple_cutouts_success_iff)
    have nth': "\<forall>i < length cs. ?f (cs ! i) = Inr (out ! i)"
      using nth by (intro allI impI)
    show ?thesis by (intro conjI len nth' fin)
  qed
  have bad: "isl (make_multiple_cutouts array (map fst ?cs') (map snd ?cs') wsize)"
    if fails: "isl (make_multiple_cutouts array (map fst cs) (map snd cs) wsize)"
  proof -
    obtain c where c: "c \<in> set cs" "isl (?f c)"
      using make_multiple_cutouts_failure_elem [OF fails] by blast
    then obtain k where k: "k < length cs" "cs ! k = c"
      by (auto simp add: in_set_conv_nth)
    have "k \<in> p ` {..<length cs}" using assms k(1) by (simp add: bij_betw_def)
    then obtain i where "i < length cs" "p i = k" by auto
    then have "c \<in> set ?cs'" using k by auto
    then show ?thesis using c(2) by (rule make_multiple_cutouts_failure)
  qed
  show ?thesis
  proof (intro conjI allI impI)
    fix out
    assume a: "make_multiple_cutouts array (map fst cs) (map snd cs) wsize = Inr out"
    show "length out = length cs" using ok [OF a] by (rule conjunct1)
    fix i assume "i < length cs"
    then show "?f (cs ! i) = Inr (out ! i)"
      using ok [OF a] by (elim conjE allE [of _ i] impE)
  next
    fix out
    assume a: "make_multiple_cutouts array (map fst cs) (map snd cs) wsize = Inr out"
    show "make_multiple_cutouts array (map fst ?cs') (map snd ?cs') wsize
        = Inr (map (\<lambda>i. out ! p i) [0..<length cs])"
      using ok [OF a] by (elim conjE)
  next
    assume "isl (make_multiple_cutouts array (map fst cs) (map snd cs) wsize)"
    then show "isl (make_multiple_cutouts array (map fst ?cs') (map snd ?cs') wsize)"
      by (rule bad)
  qed
qed

theorem batch_order_preserved_witness:
  "bij_betw (\<lambda>i. 1 - i) {..<length [(Finite 0, Finite 0), (Finite 2, Finite 2)]} {..<length [(Finite 0, Finite 0), (Finite 2, Finite 2)]}
   \<and> (\<exists>out. make_multiple_cutouts raster5 (map fst [(Finite 0, Finite 0), (Finite 2, Finite 2)]) (map snd [(Finite 0, Finite 0), (Finite 2, Finite 2)]) 3 = Inr out
         \<and> length out = length [(Finite 0, Finite 0), (Finite 2, Finite 2)]
         \<and> one_cutout (np_squeeze raster5) 3 (3 div 2) (fst ([(Finite 0, Finite 0), (Finite 2, Finite 2)] ! 1)) (snd ([(Finite 0, Finite 0), (Finite 2, Finite 2)] ! 1)) = Inr (out ! 1)
         \<and> make_multiple_cutouts raster5
              (map fst (map (\<lambda>i. [(Finite 0, Finite 0), (Finite 2, Finite 2)] ! (1 - i)) [0..<length [(Finite 0, Finite 0), (Finite 2, Finite 2)]]))
              (map snd (map (\<lambda>i. [(Finite 0, Finite 0), (Finite 2, Finite 2)] ! (1 - i)) [0..<length [(Finite 0, Finite 0), (Finite 2, Finite 2)]])) 3
            = Inr (map (\<lambda>i. out ! (1 - i)) [0..<length [(Finite 0, Finite 0), (Finite 2, Finite 2)]]))"
proof -
  have b: "bij_betw (\<lambda>i. 1 - i) {..<length [(Finite 0, Finite 0), (Finite 2, Finite 2)]} {..<length [(Finite 0, Finite 0), (Finite 2, Finite 2)]}"
    by (auto simp add: bij_betw_def inj_on_def lessThan_Suc image_iff)
  have m: "map fst [(Finite 0, Finite 0), (Finite 2, Finite 2)] = map Finite [0, 2]" "map snd [(Finite 0, Finite 0), (Finite 2, Finite 2)] = map Finite [0, 2]"
    by simp_all
  have "\<exists>out. make_multiple_cutouts raster5 (map Finite [0, 2]) (map Finite [0, 2]) 3 = Inr out"
    by (subst make_multiple_cutouts_finite [OF _ raster5_dims]) simp_all
  then obtain out where o: "make_multiple_cutouts raster5 (map fst [(Finite 0, Finite 0), (Finite 2, Finite 2)]) (map snd [(Finite 0, Finite 0), (Finite 2, Finite 2)]) 3 = Inr out"
    unfolding m by blast
  have i: "1 < length [(Finite 0, Finite 0), (Finite 2, Finite 2)]" by simp
  show ?thesis
    using b o i batch_order_preserved [OF b, of raster5 3] by blast
qed

text \<open>
  C4. A centre with a coordinate that is not finite does not yield a cutout of its own:
  rounding it raises, ValueError for a NaN and OverflowError for an infinity, and the
  exception leaves the loop, so the whole call fails whenever any centre of the batch
  has such a coordinate, and no cutout is returned for the other centres either.
\<close>

theorem nonfinite_centre_fails_batch:
  assumes "c \<in> set (zip x_pix y_pix)"
    and "\<not> is_finite (fst c) \<or> \<not> is_finite (snd c)"
  shows "isl (make_multiple_cutouts array x_pix y_pix wsize)"
proof -
  have "isl (one_cutout (np_squeeze array) wsize (wsize div 2) (fst c) (snd c))"
    using assms(2) by (rule one_cutout_nonfinite)
  with assms(1) show ?thesis
    unfolding make_multiple_cutouts_def Let_def by (rule cutouts_loop_error)
qed

theorem nonfinite_centre_fails_batch_witness:
  "(NaN, Finite 2) \<in> set (zip [Finite 2, NaN] [Finite 2, Finite 2])
   \<and> \<not> is_finite (fst (NaN, Finite 2))
   \<and> isl (make_multiple_cutouts raster5 [Finite 2, NaN] [Finite 2, Finite 2] 3)"
proof -
  have m: "(NaN, Finite 2) \<in> set (zip [Finite 2, NaN] [Finite 2, Finite 2])" by simp
  have n: "\<not> is_finite (fst (NaN, Finite 2))" by simp
  then have "\<not> is_finite (fst (NaN, Finite 2)) \<or> \<not> is_finite (snd (NaN, Finite 2))" ..
  from nonfinite_centre_fails_batch [OF m this, of raster5 3] m n
  show ?thesis by blast
qed

theorem nonfinite_centre_counterexample:
  "make_multiple_cutouts raster5 [Finite 2, NaN] [Finite 2, Finite 2] 3 = Inl ValueError
   \<and> make_multiple_cutouts raster5 [Finite 2, Finite 2] [PosInf, Finite 2] 3 = Inl OverflowError"
  by code_simp

text \<open>
  C3. The call checks no precondition before the loop. For every size that is not
  negative, even or odd, zero included, and for every image with neither one row nor one
  column, also an image with no rows or no columns, a call on finite centres is not
  rejected: it returns one \<open>size \<times> size\<close> cutout per centre, holding the sentinel
  everywhere when the image has a zero dimension. A negative size is refused only
  inside the loop, when the cutout of the first centre is allocated: the call then fails
  with ValueError and returns no batch. With no centres the call returns the empty
  batch, whatever the size and the image.
\<close>

theorem no_precondition_check:
  "(0 \<le> wsize \<and> shape0 array \<noteq> 1 \<and> shape1 array \<noteq> 1 \<longrightarrow>
      (\<exists>cutouts.
         make_multiple_cutouts array (map Finite qxs) (map Finite qys) wsize = Inr cutouts
         \<and> length cutouts = length (zip qxs qys)
         \<and> (\<forall>c \<in> set cutouts. shape0 c = nat wsize \<and> shape1 c = nat wsize
               \<and> (shape0 array = 0 \<or> shape1 array = 0 \<longrightarrow>
                    rows c = replicate (nat wsize) (replicate (nat wsize) NaN)))))
   \<and> (wsize < 0 \<longrightarrow> zip qxs qys \<noteq> [] \<longrightarrow>
        make_multiple_cutouts array (map Finite qxs) (map Finite qys) wsize = Inl ValueError)
   \<and> make_multiple_cutouts array [] [] wsize = Inr []"
proof (intro conjI impI)
  assume "0 \<le> wsize \<and> shape0 array \<noteq> 1 \<and> shape1 array \<noteq> 1"
  then have n: "0 \<le> wsize" and d: "shape0 array \<noteq> 1" "shape1 array \<noteq> 1"
    by simp_all
  have "rows (window_array array wsize h x y) = replicate (nat wsize) (replicate (nat wsize) NaN)"
    if "shape0 array = 0 \<or> shape1 array = 0" for h x y
    using that by (intro window_array_all_nan window_value_degenerate)
  then show "\<exists>cutouts.
         make_multiple_cutouts array (map Finite qxs) (map Finite qys) wsize = Inr cutouts
         \<and> length cutouts = length (zip qxs qys)
         \<and> (\<forall>c \<in> set cutouts. shape0 c = nat wsize \<and> shape1 c = nat wsize
               \<and> (shape0 array = 0 \<or> shape1 array = 0 \<longrightarrow>
                    rows c = replicate (nat wsize) (replicate (nat wsize) NaN)))"
    unfolding make_multiple_cutouts_finite [OF n d]
    by (auto simp add: window_array_shape)
next
  assume neg: "wsize < 0" and ne: "zip qxs qys \<noteq> []"
  then obtain qx qy rest where z: "zip qxs qys = (qx, qy) # rest"
    by (cases "zip qxs qys") auto
  have "one_cutout (np_squeeze array) wsize (wsize div 2) (Finite qx) (Finite qy)
      = Inl ValueError"
    using neg by (simp add: one_cutout_def cutout_of_negative)
  then show "make_multiple_cutouts array (map Finite qxs) (map Finite qys) wsize = Inl ValueError"
    by (simp add: make_multiple_cutouts_def zip_map_Finite z)
next
  show "make_multiple_cutouts array [] [] wsize = Inr []"
    by (simp add: make_multiple_cutouts_def)
qed

theorem no_precondition_check_witness:
  "(0::int) \<le> 2 \<and> shape0 \<lparr>shape0 = 0, shape1 = 5, rows = []\<rparr> \<noteq> 1 \<and> shape1 \<lparr>shape0 = 0, shape1 = 5, rows = []\<rparr> \<noteq> 1
   \<and> (\<exists>cutouts.
         make_multiple_cutouts \<lparr>shape0 = 0, shape1 = 5, rows = []\<rparr>
           (map Finite [1]) (map Finite [1]) 2 = Inr cutouts
         \<and> length cutouts = length (zip [1 :: rat] [1 :: rat])
         \<and> (\<forall>c \<in> set cutouts. shape0 c = nat 2 \<and> shape1 c = nat 2
               \<and> (shape0 \<lparr>shape0 = 0, shape1 = 5, rows = []\<rparr> = 0
                   \<or> shape1 \<lparr>shape0 = 0, shape1 = 5, rows = []\<rparr> = 0 \<longrightarrow>
                    rows c = replicate (nat 2) (replicate (nat 2) NaN))))
   \<and> (- 1 :: int) < 0 \<and> zip [1 :: rat] [1 :: rat] \<noteq> []
   \<and> make_multiple_cutouts raster5 (map Finite [1]) (map Finite [1]) (- 1) = Inl ValueError"
proof -
  have a: "(0::int) \<le> 2" and b: "(- 1 :: int) < 0" and c: "zip [1 :: rat] [1 :: rat] \<noteq> []"
    and d: "shape0 \<lparr>shape0 = 0, shape1 = 5, rows = []\<rparr> \<noteq> 1" "shape1 \<lparr>shape0 = 0, shape1 = 5, rows = []\<rparr> \<noteq> 1"
    by simp_all
  show ?thesis
    using a b c d
      no_precondition_check [of 2 "\<lparr>shape0 = 0, shape1 = 5, rows = []\<rparr>" "[1]" "[1]"]
      no_precondition_check [of "- 1" raster5 "[1]" "[1]"]
    by blast
qed

theorem no_precondition_check_counterexample:
  "make_multiple_cutouts raster5 [Finite 2] [Finite 2] 2
     = Inr [\<lparr>shape0 = 2, shape1 = 2, rows = [[Finite 6, Finite 7], [Finite 11, Finite 12]]\<rparr>]
   \<and> make_multiple_cutouts raster5 [Finite 2] [Finite 2] 0
     = Inr [\<lparr>shape0 = 0, shape1 = 0, rows = []\<rparr>]
   \<and> make_multiple_cutouts \<lparr>shape0 = 0, shape1 = 5, rows = []\<rparr> [Finite 1] [Finite 1] 3
     = Inr [\<lparr>shape0 = 3, shape1 = 3,
             rows = [[NaN, NaN, NaN], [NaN, NaN, NaN], [NaN, NaN, NaN]]\<rparr>]"
  by code_simp

text \<open>
  C8. A finite coordinate is rounded to the window centre by rounding half to even: the
  rounded value is an integer nearest to the coordinate, no integer being closer, and a
  coordinate exactly half way between two integers goes to the even one, so that 2.5
  rounds to 2 and 3.5 rounds to 4. The loop body applies this one rule to the \<open>x\<close> and
  the \<open>y\<close> coordinate alike before any index is computed.
\<close>

theorem round_half_to_even:
  "(\<forall>k. \<bar>of_int (py_round q) - q\<bar> \<le> \<bar>of_int k - q\<bar>)
   \<and> (q - of_int \<lfloor>q\<rfloor> = 1 / 2 \<longrightarrow> even (py_round q))
   \<and> py_round (5 / 2) = 2 \<and> py_round (7 / 2) = 4
   \<and> one_cutout array wsize h (Finite qx) (Finite qy)
       = cutout_of array wsize h (py_round qx) (py_round qy)"
proof (intro conjI allI impI)
  fix k
  show "\<bar>of_int (py_round q) - q\<bar> \<le> \<bar>of_int k - q\<bar>"
    unfolding py_round_distance by (rule integer_distance)
next
  assume "q - of_int \<lfloor>q\<rfloor> = 1 / 2"
  then show "even (py_round q)" by (rule py_round_tie_even)
next
  show "py_round (5 / 2) = 2" by code_simp
  show "py_round (7 / 2) = 4" by code_simp
  show "one_cutout array wsize h (Finite qx) (Finite qy)
       = cutout_of array wsize h (py_round qx) (py_round qy)"
    by (simp add: one_cutout_def)
qed

theorem round_half_to_even_witness:
  "(5 / 2 :: rat) - of_int \<lfloor>5 / 2 :: rat\<rfloor> = 1 / 2
   \<and> even (py_round (5 / 2))
   \<and> \<bar>of_int (py_round (5 / 2)) - (5 / 2 :: rat)\<bar> \<le> \<bar>of_int 3 - 5 / 2\<bar>"
proof -
  have "\<lfloor>5 / 2 :: rat\<rfloor> = 2" by (simp add: floor_eq_iff)
  then have t: "(5 / 2 :: rat) - of_int \<lfloor>5 / 2 :: rat\<rfloor> = 1 / 2" by simp
  show ?thesis
    using t round_half_to_even [of "5 / 2"] by blast
qed

text \<open>
  C7. For every positive odd size and every rounded centre, whenever the copy is made
  the view of the cutout and the view of the image have the same number of rows and the
  same number of columns. The re-clamp to the smaller of the two shapes therefore
  leaves both views as they are, and the loop body with the re-clamp returns exactly
  what the loop body without it returns.
\<close>

theorem reclamp_is_identity:
  assumes "0 < wsize" and "odd wsize" and "np_full wsize NaN = Inr cutout"
  shows "(overlaps (slice_bounds array (wsize div 2) x y) \<longrightarrow>
           nrows (cutout_region cutout (slice_bounds array (wsize div 2) x y))
             = nrows (array_region array (slice_bounds array (wsize div 2) x y))
           \<and> ncols (cutout_region cutout (slice_bounds array (wsize div 2) x y))
             = ncols (array_region array (slice_bounds array (wsize div 2) x y))
           \<and> written_region cutout array (slice_bounds array (wsize div 2) x y)
             = cutout_region cutout (slice_bounds array (wsize div 2) x y)
           \<and> read_region cutout array (slice_bounds array (wsize div 2) x y)
             = array_region array (slice_bounds array (wsize div 2) x y))
         \<and> cutout_at array wsize (wsize div 2) x y
             = cutout_at_unclamped array wsize (wsize div 2) x y"
proof -
  define h where "h = wsize div 2"
  define b where "b = slice_bounds array h x y"
  have w: "wsize = 2 * h + 1" using assms(2) unfolding h_def by presburger
  note sh = np_full_shape [OF assms(3)]
  have shapes: "nrows (cutout_region cutout b) = nrows (array_region array b)
      \<and> ncols (cutout_region cutout b) = ncols (array_region array b)
      \<and> written_region cutout array b = cutout_region cutout b
      \<and> read_region cutout array b = array_region array b" if ov: "overlaps b"
  proof -
    have ovx: "max 0 (x - h) < min (int (shape1 array)) (x + h + 1)"
      and ovy: "max 0 (y - h) < min (int (shape0 array)) (y + h + 1)"
      using ov by (simp_all add: b_def overlaps_def slice_bounds_fields)
    have r: "nrows (cutout_region cutout b) = nrows (array_region array b)"
      using axis_shapes_odd(2) [OF w ovy]
      by (simp add: cutout_region_fields array_region_fields b_def slice_bounds_fields sh(2))
    have c: "ncols (cutout_region cutout b) = ncols (array_region array b)"
      using axis_shapes_odd(2) [OF w ovx]
      by (simp add: cutout_region_fields array_region_fields b_def slice_bounds_fields sh(3))
    have "written_region cutout array b = cutout_region cutout b"
      by (simp add: written_region_def Let_def min_y_def min_x_def head_region_def r c)
    moreover have "read_region cutout array b = array_region array b"
      by (simp add: read_region_def Let_def min_y_def min_x_def head_region_def r c)
    ultimately show ?thesis using r c by simp
  qed
  have "cutout_at array wsize h x y = cutout_at_unclamped array wsize h x y"
  proof (cases "overlaps b")
    case True
    then show ?thesis
      using shapes [OF True]
      by (simp add: cutout_at_def cutout_at_unclamped_def assms(3) b_def [symmetric] Let_def)
  next
    case False
    then show ?thesis
      by (simp add: cutout_at_def cutout_at_unclamped_def assms(3) b_def [symmetric] Let_def)
  qed
  then show ?thesis
    using shapes unfolding b_def h_def by blast
qed

theorem reclamp_is_identity_witness:
  "0 < (3::int) \<and> odd (3::int) \<and> np_full 3 NaN = Inr \<lparr>shape0 = nat 3, shape1 = nat 3, rows = replicate (nat 3) (replicate (nat 3) NaN)\<rparr>
   \<and> overlaps (slice_bounds raster5 (3 div 2) 0 0)
   \<and> nrows (cutout_region \<lparr>shape0 = nat 3, shape1 = nat 3, rows = replicate (nat 3) (replicate (nat 3) NaN)\<rparr> (slice_bounds raster5 (3 div 2) 0 0)) = nrows (array_region raster5 (slice_bounds raster5 (3 div 2) 0 0))
   \<and> ncols (cutout_region \<lparr>shape0 = nat 3, shape1 = nat 3, rows = replicate (nat 3) (replicate (nat 3) NaN)\<rparr> (slice_bounds raster5 (3 div 2) 0 0)) = ncols (array_region raster5 (slice_bounds raster5 (3 div 2) 0 0))
   \<and> written_region \<lparr>shape0 = nat 3, shape1 = nat 3, rows = replicate (nat 3) (replicate (nat 3) NaN)\<rparr> raster5 (slice_bounds raster5 (3 div 2) 0 0) = cutout_region \<lparr>shape0 = nat 3, shape1 = nat 3, rows = replicate (nat 3) (replicate (nat 3) NaN)\<rparr> (slice_bounds raster5 (3 div 2) 0 0)
   \<and> read_region \<lparr>shape0 = nat 3, shape1 = nat 3, rows = replicate (nat 3) (replicate (nat 3) NaN)\<rparr> raster5 (slice_bounds raster5 (3 div 2) 0 0) = array_region raster5 (slice_bounds raster5 (3 div 2) 0 0)
   \<and> cutout_at raster5 3 (3 div 2) 0 0 = cutout_at_unclamped raster5 3 (3 div 2) 0 0"
proof -
  have h1: "0 < (3::int)" and h2: "odd (3::int)" by simp_all
  have h3: "np_full 3 NaN = Inr \<lparr>shape0 = nat 3, shape1 = nat 3, rows = replicate (nat 3) (replicate (nat 3) NaN)\<rparr>"
    by (simp add: np_full_def)
  have ov: "overlaps (slice_bounds raster5 (3 div 2) 0 0)"
    by (simp add: overlaps_def slice_bounds_fields raster5_def)
  show ?thesis
    using h1 h2 h3 ov reclamp_is_identity [OF h1 h2 h3, of raster5 0 0] by blast
qed

text \<open>
  C5. For every image with neither one row nor one column, every positive odd size and
  every finite centre, wherever the centre lies, the loop body on the squeezed image
  raises no exception and returns a well-formed cutout of
  shape \<open>size \<times> size\<close>. Whenever it copies, the slice bounds it computed for the image
  lie within \<open>0..height\<close> and \<open>0..width\<close> and those for the cutout within \<open>0..size\<close>, so
  that no bound wraps around or is clipped; every image position it reads is a valid
  index of the image, and every cutout position it writes lies inside the
  \<open>size \<times> size\<close> cutout. The statement covers every image of at least two rows and two
  columns.
\<close>

theorem extraction_is_safe:
  assumes "0 < wsize" and "odd wsize" and "np_full wsize NaN = Inr cutout"
    and "shape0 array \<noteq> 1" and "shape1 array \<noteq> 1"
  shows "(\<exists>c. one_cutout (np_squeeze array) wsize (wsize div 2) (Finite qx) (Finite qy) = Inr c
            \<and> shape0 c = nat wsize \<and> shape1 c = nat wsize \<and> wf_array c)
     \<and> (overlaps (slice_bounds array (wsize div 2) (py_round qx) (py_round qy)) \<longrightarrow>
           0 \<le> y_start (slice_bounds array (wsize div 2) (py_round qx) (py_round qy))
           \<and> y_end (slice_bounds array (wsize div 2) (py_round qx) (py_round qy))
               \<le> int (shape0 array)
           \<and> 0 \<le> x_start (slice_bounds array (wsize div 2) (py_round qx) (py_round qy))
           \<and> x_end (slice_bounds array (wsize div 2) (py_round qx) (py_round qy))
               \<le> int (shape1 array)
           \<and> 0 \<le> cutout_y_start (slice_bounds array (wsize div 2) (py_round qx) (py_round qy))
           \<and> cutout_y_end (slice_bounds array (wsize div 2) (py_round qx) (py_round qy)) \<le> wsize
           \<and> 0 \<le> cutout_x_start (slice_bounds array (wsize div 2) (py_round qx) (py_round qy))
           \<and> cutout_x_end (slice_bounds array (wsize div 2) (py_round qx) (py_round qy)) \<le> wsize)
     \<and> (\<forall>(i, j) \<in> set (region_indices (read_region cutout array
             (slice_bounds array (wsize div 2) (py_round qx) (py_round qy)))).
           i < shape0 array \<and> j < shape1 array)
     \<and> (\<forall>(i, j) \<in> set (region_indices (written_region cutout array
             (slice_bounds array (wsize div 2) (py_round qx) (py_round qy)))).
           i < nat wsize \<and> j < nat wsize)"
proof -
  define h where "h = wsize div 2"
  define b where "b = slice_bounds array h (py_round qx) (py_round qy)"
  have w: "wsize = 2 * h + 1" using assms(2) unfolding h_def by presburger
  have hb: "2 * h \<le> wsize" "wsize \<le> 2 * h + 1" using w by simp_all
  have n: "0 \<le> wsize" using assms(1) by simp
  note sh = np_full_shape [OF assms(3)]
  have "one_cutout (np_squeeze array) wsize h (Finite qx) (Finite qy)
      = Inr (window_array array wsize h (py_round qx) (py_round qy))"
    unfolding np_squeeze_matrix [OF assms(4,5)] using n hb by (rule one_cutout_finite)
  then have 1: "\<exists>c. one_cutout (np_squeeze array) wsize h (Finite qx) (Finite qy) = Inr c
            \<and> shape0 c = nat wsize \<and> shape1 c = nat wsize \<and> wf_array c"
    by (simp add: window_array_shape window_array_wf)
  have 2: "0 \<le> y_start b \<and> y_end b \<le> int (shape0 array)
      \<and> 0 \<le> x_start b \<and> x_end b \<le> int (shape1 array)
      \<and> 0 \<le> cutout_y_start b \<and> cutout_y_end b \<le> wsize
      \<and> 0 \<le> cutout_x_start b \<and> cutout_x_end b \<le> wsize" if "overlaps b"
    using raw_bounds_odd [OF w that [unfolded b_def]] unfolding b_def by blast
  have 3: "\<forall>(i, j) \<in> set (region_indices (read_region cutout array b)).
           i < shape0 array \<and> j < shape1 array"
    by (intro region_indices_within read_region_within)
  have "\<forall>(i, j) \<in> set (region_indices (written_region cutout array b)).
           i < shape0 cutout \<and> j < shape1 cutout"
    by (intro region_indices_within written_region_within)
  then have 4: "\<forall>(i, j) \<in> set (region_indices (written_region cutout array b)).
           i < nat wsize \<and> j < nat wsize"
    by (simp only: sh(2,3))
  show ?thesis
    using 1 2 3 4 unfolding b_def h_def by blast
qed

theorem extraction_is_safe_witness:
  "shape0 raster5 \<noteq> 1 \<and> shape1 raster5 \<noteq> 1 \<and> 0 < (3::int) \<and> odd (3::int) \<and> np_full 3 NaN = Inr \<lparr>shape0 = nat 3, shape1 = nat 3, rows = replicate (nat 3) (replicate (nat 3) NaN)\<rparr>
   \<and> overlaps (slice_bounds raster5 (3 div 2) (py_round 0) (py_round 0))
   \<and> (\<exists>c. one_cutout (np_squeeze raster5) 3 (3 div 2) (Finite 0) (Finite 0) = Inr c
          \<and> shape0 c = nat 3 \<and> shape1 c = nat 3 \<and> wf_array c)
   \<and> 0 \<le> y_start (slice_bounds raster5 (3 div 2) (py_round 0) (py_round 0)) \<and> y_end (slice_bounds raster5 (3 div 2) (py_round 0) (py_round 0)) \<le> int (shape0 raster5)
   \<and> 0 \<le> x_start (slice_bounds raster5 (3 div 2) (py_round 0) (py_round 0)) \<and> x_end (slice_bounds raster5 (3 div 2) (py_round 0) (py_round 0)) \<le> int (shape1 raster5)
   \<and> 0 \<le> cutout_y_start (slice_bounds raster5 (3 div 2) (py_round 0) (py_round 0)) \<and> cutout_y_end (slice_bounds raster5 (3 div 2) (py_round 0) (py_round 0)) \<le> 3
   \<and> 0 \<le> cutout_x_start (slice_bounds raster5 (3 div 2) (py_round 0) (py_round 0)) \<and> cutout_x_end (slice_bounds raster5 (3 div 2) (py_round 0) (py_round 0)) \<le> 3
   \<and> (1, 1) \<in> set (region_indices (read_region \<lparr>shape0 = nat 3, shape1 = nat 3, rows = replicate (nat 3) (replicate (nat 3) NaN)\<rparr> raster5 (slice_bounds raster5 (3 div 2) (py_round 0) (py_round 0))))
   \<and> 1 < shape0 raster5 \<and> 1 < shape1 raster5
   \<and> (2, 2) \<in> set (region_indices (written_region \<lparr>shape0 = nat 3, shape1 = nat 3, rows = replicate (nat 3) (replicate (nat 3) NaN)\<rparr> raster5 (slice_bounds raster5 (3 div 2) (py_round 0) (py_round 0))))
   \<and> 2 < nat 3"
proof -
  have h1: "0 < (3::int)" and h2: "odd (3::int)" by simp_all
  have h3: "np_full 3 NaN = Inr \<lparr>shape0 = nat 3, shape1 = nat 3, rows = replicate (nat 3) (replicate (nat 3) NaN)\<rparr>"
    by (simp add: np_full_def)
  have ov: "overlaps (slice_bounds raster5 (3 div 2) (py_round 0) (py_round 0))"
    by code_simp
  have m1: "(1, 1) \<in> set (region_indices (read_region \<lparr>shape0 = nat 3, shape1 = nat 3, rows = replicate (nat 3) (replicate (nat 3) NaN)\<rparr> raster5 (slice_bounds raster5 (3 div 2) (py_round 0) (py_round 0))))"
    by code_simp
  have m2: "(2, 2) \<in> set (region_indices (written_region \<lparr>shape0 = nat 3, shape1 = nat 3, rows = replicate (nat 3) (replicate (nat 3) NaN)\<rparr> raster5 (slice_bounds raster5 (3 div 2) (py_round 0) (py_round 0))))"
    by code_simp
  note d = raster5_dims
  note t = extraction_is_safe [OF h1 h2 h3 d, of 0 0]
  from t m1 have r1: "1 < shape0 raster5 \<and> 1 < shape1 raster5" by fast
  from t m2 have r2: "2 < nat 3" by fast
  from t ov have r3: "0 \<le> y_start (slice_bounds raster5 (3 div 2) (py_round 0) (py_round 0)) \<and> y_end (slice_bounds raster5 (3 div 2) (py_round 0) (py_round 0)) \<le> int (shape0 raster5)
   \<and> 0 \<le> x_start (slice_bounds raster5 (3 div 2) (py_round 0) (py_round 0)) \<and> x_end (slice_bounds raster5 (3 div 2) (py_round 0) (py_round 0)) \<le> int (shape1 raster5)
   \<and> 0 \<le> cutout_y_start (slice_bounds raster5 (3 div 2) (py_round 0) (py_round 0)) \<and> cutout_y_end (slice_bounds raster5 (3 div 2) (py_round 0) (py_round 0)) \<le> 3
   \<and> 0 \<le> cutout_x_start (slice_bounds raster5 (3 div 2) (py_round 0) (py_round 0)) \<and> cutout_x_end (slice_bounds raster5 (3 div 2) (py_round 0) (py_round 0)) \<le> 3" by fast
  from t have r4: "\<exists>c. one_cutout (np_squeeze raster5) 3 (3 div 2) (Finite 0) (Finite 0) = Inr c
          \<and> shape0 c = nat 3 \<and> shape1 c = nat 3 \<and> wf_array c" by (rule conjunct1)
  show ?thesis
    using d h1 h2 h3 ov r4 r3 m1 r1 m2 r2 by (intro conjI) simp_all
qed

theorem extraction_is_safe_counterexample:
  "make_multiple_cutouts \<lparr>shape0 = 1, shape1 = 1, rows = [[Finite 7]]\<rparr>
     [Finite 0] [Finite 0] 1
   = Inl IndexError"
  by code_simp

text \<open>
  C10. For every even size of at least two and every image with neither one row nor one
  column the loop still runs without raising and returns one cutout of exactly
  \<open>size \<times> size\<close> elements per finite centre, each cutout being the window taken with
  \<open>half = size div 2\<close>. The raw window of such a centre
  extends over \<open>size + 1\<close> image positions along an axis. No cutout position outside the
  \<open>size \<times> size\<close> cutout is written. Where the raw window lies wholly inside the image,
  the image view has \<open>size + 1\<close> rows and columns while the cutout view has \<open>size\<close>; the
  re-clamp to the smaller shape cuts the last row and column off the image view, and
  without the re-clamp the assignment would raise.
\<close>

theorem even_size_is_truncated:
  assumes "2 \<le> wsize" and "even wsize" and "np_full wsize NaN = Inr cutout"
    and "shape0 array \<noteq> 1" and "shape1 array \<noteq> 1"
  shows "(\<exists>cutouts.
            make_multiple_cutouts array (map Finite qxs) (map Finite qys) wsize = Inr cutouts
            \<and> cutouts = map (\<lambda>(qx, qy).
                  window_array array wsize (wsize div 2) (py_round qx) (py_round qy))
                (zip qxs qys)
            \<and> length cutouts = length (zip qxs qys)
            \<and> (\<forall>c \<in> set cutouts. shape0 c = nat wsize \<and> shape1 c = nat wsize \<and> wf_array c
                  \<and> length (concat (rows c)) = nat wsize * nat wsize))
     \<and> (x + wsize div 2 + 1) - (x - wsize div 2) = wsize + 1
     \<and> (\<forall>(i, j) \<in> set (region_indices (written_region cutout array
             (slice_bounds array (wsize div 2) x y))).
           i < nat wsize \<and> j < nat wsize)
     \<and> (0 \<le> x - wsize div 2 \<and> x + wsize div 2 + 1 \<le> int (shape1 array)
         \<and> 0 \<le> y - wsize div 2 \<and> y + wsize div 2 + 1 \<le> int (shape0 array) \<longrightarrow>
           overlaps (slice_bounds array (wsize div 2) x y)
           \<and> nrows (array_region array (slice_bounds array (wsize div 2) x y)) = nat wsize + 1
           \<and> ncols (array_region array (slice_bounds array (wsize div 2) x y)) = nat wsize + 1
           \<and> nrows (cutout_region cutout (slice_bounds array (wsize div 2) x y)) = nat wsize
           \<and> ncols (cutout_region cutout (slice_bounds array (wsize div 2) x y)) = nat wsize
           \<and> nrows (read_region cutout array (slice_bounds array (wsize div 2) x y)) = nat wsize
           \<and> ncols (read_region cutout array (slice_bounds array (wsize div 2) x y)) = nat wsize
           \<and> nrows (written_region cutout array (slice_bounds array (wsize div 2) x y))
               = nat wsize
           \<and> ncols (written_region cutout array (slice_bounds array (wsize div 2) x y))
               = nat wsize
           \<and> cutout_at_unclamped array wsize (wsize div 2) x y = Inl ValueError)"
proof -
  define h where "h = wsize div 2"
  define b where "b = slice_bounds array h x y"
  have w: "wsize = 2 * h" using assms(2) unfolding h_def by presburger
  have h1: "1 \<le> h" using assms(1) w by linarith
  have n: "0 \<le> wsize" using assms(1) by simp
  note sh = np_full_shape [OF assms(3)]
  have 1: "\<exists>cutouts.
            make_multiple_cutouts array (map Finite qxs) (map Finite qys) wsize = Inr cutouts
            \<and> cutouts = map (\<lambda>(qx, qy).
                  window_array array wsize h (py_round qx) (py_round qy)) (zip qxs qys)
            \<and> length cutouts = length (zip qxs qys)
            \<and> (\<forall>c \<in> set cutouts. shape0 c = nat wsize \<and> shape1 c = nat wsize \<and> wf_array c
                  \<and> length (concat (rows c)) = nat wsize * nat wsize)"
    unfolding make_multiple_cutouts_finite [OF n assms(4,5)] h_def
    by (auto simp add: window_array_shape window_array_wf window_array_count)
  have 2: "(x + h + 1) - (x - h) = wsize + 1" using w by linarith
  have "\<forall>(i, j) \<in> set (region_indices (written_region cutout array b)).
           i < shape0 cutout \<and> j < shape1 cutout"
    by (intro region_indices_within written_region_within)
  then have 3: "\<forall>(i, j) \<in> set (region_indices (written_region cutout array b)).
           i < nat wsize \<and> j < nat wsize"
    by (simp only: sh(2,3))
  have 4: "overlaps b
      \<and> nrows (array_region array b) = nat wsize + 1
      \<and> ncols (array_region array b) = nat wsize + 1
      \<and> nrows (cutout_region cutout b) = nat wsize
      \<and> ncols (cutout_region cutout b) = nat wsize
      \<and> nrows (read_region cutout array b) = nat wsize
      \<and> ncols (read_region cutout array b) = nat wsize
      \<and> nrows (written_region cutout array b) = nat wsize
      \<and> ncols (written_region cutout array b) = nat wsize
      \<and> cutout_at_unclamped array wsize h x y = Inl ValueError"
    if inside: "0 \<le> x - h \<and> x + h + 1 \<le> int (shape1 array)
         \<and> 0 \<le> y - h \<and> y + h + 1 \<le> int (shape0 array)"
  proof -
    from inside have ix: "0 \<le> x - h" "x + h + 1 \<le> int (shape1 array)"
      and iy: "0 \<le> y - h" "y + h + 1 \<le> int (shape0 array)" by simp_all
    note ax = axis_shapes_even_inside [OF w h1 ix]
    note ay = axis_shapes_even_inside [OF w h1 iy]
    have ov: "overlaps b"
      using ax(1) ay(1) by (simp add: b_def overlaps_def slice_bounds_fields)
    have ar: "nrows (array_region array b) = nat wsize + 1"
      "ncols (array_region array b) = nat wsize + 1"
      using ax(2) ay(2) by (simp_all add: array_region_fields b_def slice_bounds_fields)
    have cr: "nrows (cutout_region cutout b) = nat wsize"
      "ncols (cutout_region cutout b) = nat wsize"
      using ax(3) ay(3)
      by (simp_all add: cutout_region_fields b_def slice_bounds_fields sh(2,3))
    have wr: "nrows (written_region cutout array b) = nat wsize"
      "ncols (written_region cutout array b) = nat wsize"
      by (simp_all add: written_region_def Let_def head_region_def min_y_def min_x_def ar cr)
    have rr: "nrows (read_region cutout array b) = nat wsize"
      "ncols (read_region cutout array b) = nat wsize"
      by (simp_all add: read_region_fields wr)
    have "nat wsize + 1 \<noteq> nat wsize" "nat wsize + 1 \<noteq> 1"
      using assms(1) by linarith+
    then have "region_set cutout (cutout_region cutout b)
        (region_get array (array_region array b)) = Inl ValueError"
      by (simp add: region_set_def region_get_shape ar cr)
    then have "cutout_at_unclamped array wsize h x y = Inl ValueError"
      using ov by (simp add: cutout_at_unclamped_def assms(3) b_def [symmetric] Let_def)
    with ov ar cr rr wr show ?thesis by simp
  qed
  show ?thesis
    using 1 2 3 4 unfolding b_def h_def by blast
qed

theorem even_size_is_truncated_witness:
  "shape0 raster5 \<noteq> 1 \<and> shape1 raster5 \<noteq> 1 \<and> (2::int) \<le> 2 \<and> even (2::int) \<and> np_full 2 NaN = Inr \<lparr>shape0 = nat 2, shape1 = nat 2, rows = replicate (nat 2) (replicate (nat 2) NaN)\<rparr>
   \<and> (0::int) \<le> 2 - 2 div 2 \<and> (2::int) + 2 div 2 + 1 \<le> int (shape1 raster5)
   \<and> (2::int) + 2 div 2 + 1 \<le> int (shape0 raster5)
   \<and> (\<exists>cutouts.
         make_multiple_cutouts raster5 (map Finite [2]) (map Finite [2]) 2 = Inr cutouts
         \<and> cutouts = map (\<lambda>(qx, qy).
               window_array raster5 2 (2 div 2) (py_round qx) (py_round qy)) (zip [2] [2])
         \<and> length cutouts = length (zip [2 :: rat] [2 :: rat])
         \<and> (\<forall>c \<in> set cutouts. shape0 c = nat 2 \<and> shape1 c = nat 2 \<and> wf_array c
               \<and> length (concat (rows c)) = nat 2 * nat 2))
   \<and> overlaps (slice_bounds raster5 (2 div 2) 2 2)
   \<and> nrows (array_region raster5 (slice_bounds raster5 (2 div 2) 2 2)) = nat 2 + 1
   \<and> ncols (array_region raster5 (slice_bounds raster5 (2 div 2) 2 2)) = nat 2 + 1
   \<and> nrows (cutout_region \<lparr>shape0 = nat 2, shape1 = nat 2, rows = replicate (nat 2) (replicate (nat 2) NaN)\<rparr> (slice_bounds raster5 (2 div 2) 2 2)) = nat 2
   \<and> ncols (cutout_region \<lparr>shape0 = nat 2, shape1 = nat 2, rows = replicate (nat 2) (replicate (nat 2) NaN)\<rparr> (slice_bounds raster5 (2 div 2) 2 2)) = nat 2
   \<and> nrows (read_region \<lparr>shape0 = nat 2, shape1 = nat 2, rows = replicate (nat 2) (replicate (nat 2) NaN)\<rparr> raster5 (slice_bounds raster5 (2 div 2) 2 2)) = nat 2
   \<and> ncols (read_region \<lparr>shape0 = nat 2, shape1 = nat 2, rows = replicate (nat 2) (replicate (nat 2) NaN)\<rparr> raster5 (slice_bounds raster5 (2 div 2) 2 2)) = nat 2
   \<and> nrows (written_region \<lparr>shape0 = nat 2, shape1 = nat 2, rows = replicate (nat 2) (replicate (nat 2) NaN)\<rparr> raster5 (slice_bounds raster5 (2 div 2) 2 2)) = nat 2
   \<and> ncols (written_region \<lparr>shape0 = nat 2, shape1 = nat 2, rows = replicate (nat 2) (replicate (nat 2) NaN)\<rparr> raster5 (slice_bounds raster5 (2 div 2) 2 2)) = nat 2
   \<and> cutout_at_unclamped raster5 2 (2 div 2) 2 2 = Inl ValueError
   \<and> cutout_at raster5 2 (2 div 2) 2 2
       = Inr \<lparr>shape0 = 2, shape1 = 2, rows = [[Finite 6, Finite 7], [Finite 11, Finite 12]]\<rparr>"
proof -
  have h1: "(2::int) \<le> 2" and h2: "even (2::int)" by simp_all
  have h3: "np_full 2 NaN = Inr \<lparr>shape0 = nat 2, shape1 = nat 2, rows = replicate (nat 2) (replicate (nat 2) NaN)\<rparr>"
    by (simp add: np_full_def)
  have i: "(0::int) \<le> 2 - 2 div 2" "(2::int) + 2 div 2 + 1 \<le> int (shape1 raster5)"
    "(2::int) + 2 div 2 + 1 \<le> int (shape0 raster5)"
    by (simp_all add: raster5_def)
  have v: "cutout_at raster5 2 (2 div 2) 2 2
       = Inr \<lparr>shape0 = 2, shape1 = 2, rows = [[Finite 6, Finite 7], [Finite 11, Finite 12]]\<rparr>"
    by code_simp
  note d = raster5_dims
  note t = even_size_is_truncated [OF h1 h2 h3 d, of "[2]" "[2]" 2 2]
  from t have a: "\<exists>cutouts.
         make_multiple_cutouts raster5 (map Finite [2]) (map Finite [2]) 2 = Inr cutouts
         \<and> cutouts = map (\<lambda>(qx, qy).
               window_array raster5 2 (2 div 2) (py_round qx) (py_round qy)) (zip [2] [2])
         \<and> length cutouts = length (zip [2 :: rat] [2 :: rat])
         \<and> (\<forall>c \<in> set cutouts. shape0 c = nat 2 \<and> shape1 c = nat 2 \<and> wf_array c
               \<and> length (concat (rows c)) = nat 2 * nat 2)" by (rule conjunct1)
  from t i have b: "overlaps (slice_bounds raster5 (2 div 2) 2 2)
   \<and> nrows (array_region raster5 (slice_bounds raster5 (2 div 2) 2 2)) = nat 2 + 1
   \<and> ncols (array_region raster5 (slice_bounds raster5 (2 div 2) 2 2)) = nat 2 + 1
   \<and> nrows (cutout_region \<lparr>shape0 = nat 2, shape1 = nat 2, rows = replicate (nat 2) (replicate (nat 2) NaN)\<rparr> (slice_bounds raster5 (2 div 2) 2 2)) = nat 2
   \<and> ncols (cutout_region \<lparr>shape0 = nat 2, shape1 = nat 2, rows = replicate (nat 2) (replicate (nat 2) NaN)\<rparr> (slice_bounds raster5 (2 div 2) 2 2)) = nat 2
   \<and> nrows (read_region \<lparr>shape0 = nat 2, shape1 = nat 2, rows = replicate (nat 2) (replicate (nat 2) NaN)\<rparr> raster5 (slice_bounds raster5 (2 div 2) 2 2)) = nat 2
   \<and> ncols (read_region \<lparr>shape0 = nat 2, shape1 = nat 2, rows = replicate (nat 2) (replicate (nat 2) NaN)\<rparr> raster5 (slice_bounds raster5 (2 div 2) 2 2)) = nat 2
   \<and> nrows (written_region \<lparr>shape0 = nat 2, shape1 = nat 2, rows = replicate (nat 2) (replicate (nat 2) NaN)\<rparr> raster5 (slice_bounds raster5 (2 div 2) 2 2)) = nat 2
   \<and> ncols (written_region \<lparr>shape0 = nat 2, shape1 = nat 2, rows = replicate (nat 2) (replicate (nat 2) NaN)\<rparr> raster5 (slice_bounds raster5 (2 div 2) 2 2)) = nat 2
   \<and> cutout_at_unclamped raster5 2 (2 div 2) 2 2 = Inl ValueError" by fast
  show ?thesis
    using d h1 h2 h3 i a b v by (intro conjI) simp_all
qed

theorem even_size_is_truncated_counterexample:
  "make_multiple_cutouts
     \<lparr>shape0 = 1, shape1 = 5,
      rows = [[Finite 0, Finite 1, Finite 2, Finite 3, Finite 4]]\<rparr>
     [Finite 2] [Finite 0] 2
   = Inl IndexError"
  by code_simp

end
